theory Spec2Isabelle
  imports Complex_Main "HOL-Library.Sublist" "HOL-Library.Multiset"
begin

section \<open>JavaScript numbers\<close>

text \<open>
  A JavaScript number is modelled as a real number or one of the three special values
  of IEEE 754. Finite arithmetic is exact: the rounding and the overflow of binary64
  are not part of the model, and the negative zero is identified with zero (the code
  never divides by a computed zero, the only place where the two differ).
\<close>

datatype jsnum = Fin real | NaN | PInf | NInf

text \<open>\<^verbatim>\<open>Number.isFinite(n)\<close>\<close>

fun isFinite :: "jsnum \<Rightarrow> bool" where
  "isFinite (Fin x) = True"
| "isFinite NaN = False"
| "isFinite PInf = False"
| "isFinite NInf = False"

text \<open>Truthiness of a number: \<^verbatim>\<open>0\<close> and \<^verbatim>\<open>NaN\<close> are falsy.\<close>

fun truthy :: "jsnum \<Rightarrow> bool" where
  "truthy (Fin x) = (x \<noteq> 0)"
| "truthy NaN = False"
| "truthy PInf = True"
| "truthy NInf = True"

text \<open>The comparisons \<^verbatim>\<open>a < b\<close> and \<^verbatim>\<open>a >= b\<close>; both are false when an operand is \<^verbatim>\<open>NaN\<close>.\<close>

fun js_lt :: "jsnum \<Rightarrow> jsnum \<Rightarrow> bool" where
  "js_lt NaN b = False"
| "js_lt a NaN = False"
| "js_lt (Fin x) (Fin y) = (x < y)"
| "js_lt (Fin x) PInf = True"
| "js_lt (Fin x) NInf = False"
| "js_lt PInf b = False"
| "js_lt NInf NInf = False"
| "js_lt NInf b = True"

fun js_ge :: "jsnum \<Rightarrow> jsnum \<Rightarrow> bool" where
  "js_ge NaN b = False"
| "js_ge a NaN = False"
| "js_ge a b = (\<not> js_lt a b)"

text \<open>Unary minus, \<^verbatim>\<open>+\<close>, \<^verbatim>\<open>-\<close>, \<^verbatim>\<open>*\<close> and \<^verbatim>\<open>/\<close> with the special values of IEEE 754.\<close>

fun js_neg :: "jsnum \<Rightarrow> jsnum" where
  "js_neg (Fin x) = Fin (- x)"
| "js_neg NaN = NaN"
| "js_neg PInf = NInf"
| "js_neg NInf = PInf"

fun js_add :: "jsnum \<Rightarrow> jsnum \<Rightarrow> jsnum" where
  "js_add NaN b = NaN"
| "js_add a NaN = NaN"
| "js_add (Fin x) (Fin y) = Fin (x + y)"
| "js_add (Fin x) b = b"
| "js_add a (Fin y) = a"
| "js_add PInf PInf = PInf"
| "js_add NInf NInf = NInf"
| "js_add PInf NInf = NaN"
| "js_add NInf PInf = NaN"

definition js_sub :: "jsnum \<Rightarrow> jsnum \<Rightarrow> jsnum" where
  "js_sub a b = js_add a (js_neg b)"

text \<open>The sign of a number that is not \<^verbatim>\<open>NaN\<close>: \<open>-1\<close>, \<open>0\<close> or \<open>1\<close>.\<close>

fun js_sign :: "jsnum \<Rightarrow> int" where
  "js_sign (Fin x) = (if x < 0 then - 1 else if x = 0 then 0 else 1)"
| "js_sign PInf = 1"
| "js_sign NInf = - 1"
| "js_sign NaN = 0"

definition signed_inf :: "int \<Rightarrow> jsnum" where
  "signed_inf s = (if s < 0 then NInf else if s = 0 then NaN else PInf)"

fun js_mul :: "jsnum \<Rightarrow> jsnum \<Rightarrow> jsnum" where
  "js_mul NaN b = NaN"
| "js_mul a NaN = NaN"
| "js_mul (Fin x) (Fin y) = Fin (x * y)"
| "js_mul a b = signed_inf (js_sign a * js_sign b)"

fun js_div :: "jsnum \<Rightarrow> jsnum \<Rightarrow> jsnum" where
  "js_div NaN b = NaN"
| "js_div a NaN = NaN"
| "js_div (Fin x) (Fin y) = (if y = 0 then signed_inf (js_sign (Fin x)) else Fin (x / y))"
| "js_div (Fin x) b = Fin 0"
| "js_div a (Fin y) = signed_inf (js_sign a * (if y < 0 then - 1 else 1))"
| "js_div a b = NaN"

text \<open>\<^verbatim>\<open>Math.min\<close> and \<^verbatim>\<open>Math.max\<close> of two numbers: \<^verbatim>\<open>NaN\<close> if either is.\<close>

fun math_min :: "jsnum \<Rightarrow> jsnum \<Rightarrow> jsnum" where
  "math_min NaN b = NaN"
| "math_min a NaN = NaN"
| "math_min a b = (if js_lt b a then b else a)"

fun math_max :: "jsnum \<Rightarrow> jsnum \<Rightarrow> jsnum" where
  "math_max NaN b = NaN"
| "math_max a NaN = NaN"
| "math_max a b = (if js_lt a b then b else a)"

section \<open>Normalization (scoring.js)\<close>

text \<open>
  The values handed to the scoring functions are numbers (\<^verbatim>\<open>Record<string, number>\<close>),
  on which \<^verbatim>\<open>Number(value)\<close> is the identity; \<^verbatim>\<open>NaN\<close> stands for what the coercion
  makes of a value that is not numeric.
\<close>

definition toClampedNumber :: "jsnum \<Rightarrow> jsnum \<Rightarrow> jsnum \<Rightarrow> jsnum" where
  "toClampedNumber v mn mx =
     (let n = v in if \<not> isFinite n then mn else math_min mx (math_max mn n))"

definition normalize0to3To100 :: "jsnum \<Rightarrow> jsnum" where
  "normalize0to3To100 score0to3 =
     (let clamped = toClampedNumber score0to3 (Fin 0) (Fin 3)
      in js_mul (js_div clamped (Fin 3)) (Fin 100))"

definition normalize1to4To100 :: "jsnum \<Rightarrow> jsnum" where
  "normalize1to4To100 score1to4 =
     (let clamped = toClampedNumber score1to4 (Fin 1) (Fin 4)
      in js_mul (js_div (js_sub clamped (Fin 1)) (Fin 3)) (Fin 100))"

section \<open>Strings and objects\<close>

text \<open>
  Strings are lists of characters; the case mappings are those of the ASCII letters
  (every other character is left as it is). An object that the code enumerates with
  \<^verbatim>\<open>Object.entries\<close> is the list of its entries in enumeration order: for property
  names that are not array indices this is the order of insertion. An object that is only
  looked up by key (the two response maps) is a partial map. Property names are ordinary
  names: none is an array index, which would be enumerated first, or a name that a plain
  object inherits from its prototype.
\<close>

definition lower_char :: "char \<Rightarrow> char" where
  "lower_char c = (let n = (of_char c :: nat) in if 65 \<le> n \<and> n \<le> 90 then char_of (n + 32) else c)"

definition upper_char :: "char \<Rightarrow> char" where
  "upper_char c = (let n = (of_char c :: nat) in if 97 \<le> n \<and> n \<le> 122 then char_of (n - 32) else c)"

definition toLowerCase :: "string \<Rightarrow> string" where
  "toLowerCase s = map lower_char s"

type_synonym 'v obj = "(string \<times> 'v) list"

text \<open>\<^verbatim>\<open>o[k] = v\<close>: an existing entry keeps its place, a new one goes last.\<close>

fun obj_set :: "'v obj \<Rightarrow> string \<Rightarrow> 'v \<Rightarrow> 'v obj" where
  "obj_set [] k v = [(k, v)]"
| "obj_set ((k', v') # es) k v = (if k' = k then (k, v) # es else (k', v') # obj_set es k v)"

text \<open>\<^verbatim>\<open>for (const [k, v] of Object.entries(o)) out[k] = f(k, v)\<close>, from an empty \<^verbatim>\<open>out\<close>.\<close>

definition obj_map_entries :: "(string \<Rightarrow> 'a \<Rightarrow> 'b) \<Rightarrow> 'a obj \<Rightarrow> 'b obj" where
  "obj_map_entries f entries = foldl (\<lambda>out (k, v). obj_set out k (f k v)) [] entries"

text \<open>\<^verbatim>\<open>Number(v || d)\<close> for a property that may be absent.\<close>

definition num_or :: "jsnum option \<Rightarrow> jsnum \<Rightarrow> jsnum" where
  "num_or v d = (case v of None \<Rightarrow> d | Some n \<Rightarrow> if truthy n then n else d)"

section \<open>Dimension scores (scoring.js)\<close>

record Question =
  q_id :: string
  q_dimension :: string

record Stats =
  st_sum :: jsnum
  st_count :: nat
  st_total :: nat

record DimensionScore =
  ds_avg :: jsnum
  ds_score100 :: jsnum
  ds_answered :: nat
  ds_total :: nat

definition accum_update :: "Stats obj \<Rightarrow> string \<Rightarrow> (Stats \<Rightarrow> Stats) \<Rightarrow> Stats obj" where
  "accum_update accum key f = map (\<lambda>(k, s). if k = key then (k, f s) else (k, s)) accum"

text \<open>One round of the loop over the behavioral questions.\<close>

definition accum_step :: "(string \<rightharpoonup> jsnum) \<Rightarrow> Stats obj \<Rightarrow> Question \<Rightarrow> Stats obj" where
  "accum_step responses accum q =
     (let key = toLowerCase (q_dimension q);
          accum1 = (if map_of accum key = None
                    then obj_set accum key \<lparr>st_sum = Fin 0, st_count = 0, st_total = 0\<rparr>
                    else accum);
          accum2 = accum_update accum1 key (\<lambda>s. s\<lparr>st_total := st_total s + 1\<rparr>)
      in case responses (q_id q) of
           None \<Rightarrow> accum2
         | Some r \<Rightarrow>
             (let v = toClampedNumber r (Fin 0) (Fin 3)
              in accum_update accum2 key
                   (\<lambda>s. s\<lparr>st_sum := js_add (st_sum s) v, st_count := st_count s + 1\<rparr>)))"

definition score_of_stats :: "Stats \<Rightarrow> DimensionScore" where
  "score_of_stats stats =
     (let avg = (if st_count stats > 0
                 then js_div (st_sum stats) (Fin (real (st_count stats))) else Fin 0)
      in \<lparr>ds_avg = avg, ds_score100 = normalize0to3To100 avg,
          ds_answered = st_count stats, ds_total = st_total stats\<rparr>)"

text \<open>
  The questionnaire is given by its list \<^verbatim>\<open>structuralMaturity.behavioralQuestions\<close>
  (the empty list when it is absent).
\<close>

definition computeDimensionScores :: "(string \<rightharpoonup> jsnum) \<Rightarrow> Question list \<Rightarrow> DimensionScore obj" where
  "computeDimensionScores responses questions =
     (let accum = foldl (accum_step responses) [] questions
      in obj_map_entries (\<lambda>dimension stats. score_of_stats stats) accum)"

section \<open>Operational pressure (scoring.js)\<close>

definition OPERATIONAL_WEIGHTS :: "jsnum obj" where
  "OPERATIONAL_WEIGHTS =
     [(''teamSize'', Fin (25 / 100)),
      (''productComplexity'', Fin (25 / 100)),
      (''aiUsage'', Fin (2 / 10)),
      (''releaseFrequency'', Fin (15 / 100)),
      (''toolingFragmentation'', Fin (15 / 100))]"

definition CONTEXT_KEY_ALIASES :: "(string list) obj" where
  "CONTEXT_KEY_ALIASES =
     [(''teamSize'', [''teamSize'', ''oc_team_size'']),
      (''productComplexity'', [''productComplexity'', ''oc_product_complexity'']),
      (''aiUsage'', [''aiUsage'', ''oc_ai_usage'']),
      (''releaseFrequency'', [''releaseFrequency'', ''oc_release_frequency'']),
      (''toolingFragmentation'', [''toolingFragmentation'', ''oc_tooling_fragmentation''])]"

text \<open>
  \<^verbatim>\<open>CONTEXT_KEY_ALIASES[factor]\<close>. The code only asks for the five factors of the
  table; the empty list stands for the \<^verbatim>\<open>undefined\<close> of any other name.
\<close>

definition aliases_of :: "string \<Rightarrow> string list" where
  "aliases_of factor = (case map_of CONTEXT_KEY_ALIASES factor of Some a \<Rightarrow> a | None \<Rightarrow> [])"

fun resolveContextValue :: "(string \<rightharpoonup> jsnum) \<Rightarrow> string list \<Rightarrow> jsnum" where
  "resolveContextValue contextResponses [] = Fin 1"
| "resolveContextValue contextResponses (key # aliases) =
     (case contextResponses key of
        Some v \<Rightarrow> v
      | None \<Rightarrow> resolveContextValue contextResponses aliases)"

record BreakdownEntry =
  b_raw :: jsnum
  b_score100 :: jsnum
  b_weight :: jsnum
  b_contribution :: jsnum

record OperationalPressure =
  op_OPI :: jsnum
  op_breakdown :: "BreakdownEntry obj"

definition pressure_step ::
  "(string \<rightharpoonup> jsnum) \<Rightarrow> OperationalPressure \<Rightarrow> string \<times> jsnum \<Rightarrow> OperationalPressure" where
  "pressure_step contextResponses acc fw =
     (case fw of (factor, weight) \<Rightarrow>
        (let raw = resolveContextValue contextResponses (aliases_of factor);
             score100 = normalize1to4To100 raw;
             contribution = js_mul score100 weight
         in \<lparr>op_OPI = js_add (op_OPI acc) contribution,
             op_breakdown = obj_set (op_breakdown acc) factor
               \<lparr>b_raw = raw, b_score100 = score100, b_weight = weight,
                b_contribution = contribution\<rparr>\<rparr>))"

definition computeOperationalPressure :: "(string \<rightharpoonup> jsnum) \<Rightarrow> OperationalPressure" where
  "computeOperationalPressure contextResponses =
     foldl (pressure_step contextResponses) \<lparr>op_OPI = Fin 0, op_breakdown = []\<rparr> OPERATIONAL_WEIGHTS"

section \<open>Composite index, gaps and risks (scoring.js)\<close>

definition computeSSI :: "DimensionScore obj \<Rightarrow> jsnum" where
  "computeSSI dimensionScores =
     (let vals = map snd dimensionScores
      in if vals = [] then Fin 0
         else (let total = foldl (\<lambda>s d. js_add s (num_or (Some (ds_score100 d)) (Fin 0))) (Fin 0) vals
               in js_div total (Fin (real (length vals)))))"

definition computeAdequacyGap :: "jsnum \<Rightarrow> jsnum \<Rightarrow> jsnum" where
  "computeAdequacyGap SSI OPI = js_sub (num_or (Some SSI) (Fin 0)) (num_or (Some OPI) (Fin 0))"

definition computeDimensionGaps :: "DimensionScore obj \<Rightarrow> jsnum \<Rightarrow> jsnum obj" where
  "computeDimensionGaps dimensionScores OPI =
     obj_map_entries
       (\<lambda>dimension scores. js_sub (num_or (Some (ds_score100 scores)) (Fin 0)) (num_or (Some OPI) (Fin 0)))
       dimensionScores"

record RiskContext =
  c_teamSize :: "jsnum option"
  c_aiUsage :: "jsnum option"
  c_governanceAvg :: "jsnum option"
  c_distributionAvg :: "jsnum option"

record DimensionRisk =
  r_gap :: jsnum
  r_risk :: bool

record Risks =
  byDimension :: "DimensionRisk obj"
  flags :: "string list"
  hasRisk :: bool

definition gap_flag :: "string \<Rightarrow> string" where
  "gap_flag dimension = dimension @ '' risk (gap < -15)''"

definition entropy_flag :: string where
  "entropy_flag = ''Entropy risk (AI velocity > governance)''"

definition drift_flag :: string where
  "drift_flag = ''Drift risk (scale > release discipline)''"

text \<open>One round of the loop over the dimension gaps: the pair is \<^verbatim>\<open>(byDimension, flags)\<close>.\<close>

definition risk_step ::
  "DimensionRisk obj \<times> string list \<Rightarrow> string \<times> jsnum \<Rightarrow> DimensionRisk obj \<times> string list" where
  "risk_step acc dg =
     (case (acc, dg) of ((byDim, fl), (dimension, gap)) \<Rightarrow>
        (let isRisk = js_lt gap (Fin (- 15))
         in (obj_set byDim dimension \<lparr>r_gap = gap, r_risk = isRisk\<rparr>,
             if isRisk then fl @ [gap_flag dimension] else fl)))"

definition classifyRisks :: "jsnum obj \<Rightarrow> RiskContext \<Rightarrow> Risks" where
  "classifyRisks dimensionGaps context =
     (case foldl risk_step ([], []) dimensionGaps of (byDim, flags1) \<Rightarrow>
        (let aiUsage = num_or (c_aiUsage context) (Fin 0);
             governanceAvg = num_or (c_governanceAvg context) (Fin 0);
             flags2 = (if js_ge aiUsage (Fin 3) \<and> js_lt governanceAvg (Fin 2)
                       then flags1 @ [entropy_flag] else flags1);
             teamSize = num_or (c_teamSize context) (Fin 0);
             distributionAvg = num_or (c_distributionAvg context) (Fin 0);
             flags3 = (if js_ge teamSize (Fin 3) \<and> js_lt distributionAvg (Fin 2)
                       then flags2 @ [drift_flag] else flags2)
         in \<lparr>byDimension = byDim, flags = flags3, hasRisk = (length flags3 > 0)\<rparr>))"

section \<open>The report model (scoring.js)\<close>

record ReportModel =
  context_raw :: "jsnum obj"
  context_normalized100 :: "jsnum obj"
  operationalPressure :: "OperationalPressure option"
  dimensionScores :: "DimensionScore obj"
  SSI :: "jsnum option"
  adequacyGap :: "jsnum option"
  dimensionGaps :: "jsnum obj"
  risks :: Risks

definition computeReportModel ::
  "(string \<rightharpoonup> jsnum) \<Rightarrow> (string \<rightharpoonup> jsnum) \<Rightarrow> Question list \<Rightarrow> ReportModel" where
  "computeReportModel responses contextResponses questions =
     (let dimScores = computeDimensionScores responses questions;
          pressure = computeOperationalPressure contextResponses;
          ssi = computeSSI dimScores;
          gap = computeAdequacyGap ssi (op_OPI pressure);
          dimGaps = computeDimensionGaps dimScores (op_OPI pressure);
          teamSize = resolveContextValue contextResponses (aliases_of ''teamSize'');
          aiUsage = resolveContextValue contextResponses (aliases_of ''aiUsage'');
          governanceAvg = num_or (map_option ds_avg (map_of dimScores ''governance'')) (Fin 0);
          distributionAvg = num_or (map_option ds_avg (map_of dimScores ''distribution'')) (Fin 0);
          rs = classifyRisks dimGaps
                 \<lparr>c_teamSize = Some teamSize, c_aiUsage = Some aiUsage,
                  c_governanceAvg = Some governanceAvg, c_distributionAvg = Some distributionAvg\<rparr>;
          normalized100 = obj_map_entries
                 (\<lambda>factor aliases. normalize1to4To100 (resolveContextValue contextResponses aliases))
                 CONTEXT_KEY_ALIASES
      in \<lparr>context_raw =
            [(''teamSize'', teamSize),
             (''productComplexity'', resolveContextValue contextResponses (aliases_of ''productComplexity'')),
             (''aiUsage'', aiUsage),
             (''releaseFrequency'', resolveContextValue contextResponses (aliases_of ''releaseFrequency'')),
             (''toolingFragmentation'', resolveContextValue contextResponses (aliases_of ''toolingFragmentation''))],
          context_normalized100 = normalized100,
          operationalPressure = Some pressure,
          dimensionScores = dimScores,
          SSI = Some ssi,
          adequacyGap = Some gap,
          dimensionGaps = dimGaps,
          risks = rs\<rparr>)"

section \<open>Narrative generators (report.js)\<close>

text \<open>\<^verbatim>\<open>toTitle(key)\<close>: the first character in upper case.\<close>

fun toTitle :: "string \<Rightarrow> string" where
  "toTitle [] = []"
| "toTitle (c # cs) = upper_char c # cs"

text \<open>
  \<^verbatim>\<open>Array.prototype.sort\<close> with a comparator. The sort is stable, and for a comparator
  that is consistent its result is the one of this insertion sort: \<^verbatim>\<open>cmp(x, y) > 0\<close>
  puts \<open>x\<close> after \<open>y\<close>, and any other value of the comparator, \<^verbatim>\<open>NaN\<close> included, keeps
  the order that the two elements have in the array.
\<close>

fun sort_insert :: "('a \<Rightarrow> 'a \<Rightarrow> jsnum) \<Rightarrow> 'a \<Rightarrow> 'a list \<Rightarrow> 'a list" where
  "sort_insert cmp x [] = [x]"
| "sort_insert cmp x (y # ys) =
     (if js_lt (Fin 0) (cmp x y) then y # sort_insert cmp x ys else x # y # ys)"

fun js_sort :: "('a \<Rightarrow> 'a \<Rightarrow> jsnum) \<Rightarrow> 'a list \<Rightarrow> 'a list" where
  "js_sort cmp [] = []"
| "js_sort cmp (x # xs) = sort_insert cmp x (js_sort cmp xs)"

record RankedDimension =
  rd_dimension :: string
  rd_avg :: jsnum
  rd_score100 :: jsnum

definition ranked_entry :: "string \<times> DimensionScore \<Rightarrow> RankedDimension" where
  "ranked_entry e =
     (case e of (dimension, v) \<Rightarrow>
        \<lparr>rd_dimension = dimension,
         rd_avg = num_or (Some (ds_avg v)) (Fin 0),
         rd_score100 = num_or (Some (ds_score100 v)) (Fin 0)\<rparr>)"

definition by_score_descending :: "RankedDimension \<Rightarrow> RankedDimension \<Rightarrow> jsnum" where
  "by_score_descending a b = js_sub (rd_score100 b) (rd_score100 a)"

definition sortedDimensions :: "DimensionScore obj \<Rightarrow> RankedDimension list" where
  "sortedDimensions scores = js_sort by_score_descending (map ranked_entry scores)"

definition titled :: "RankedDimension \<Rightarrow> RankedDimension" where
  "titled d = \<lparr>rd_dimension = toTitle (rd_dimension d), rd_avg = rd_avg d, rd_score100 = rd_score100 d\<rparr>"

definition generateStrengths :: "ReportModel \<Rightarrow> RankedDimension list" where
  "generateStrengths reportModel = map titled (take 2 (sortedDimensions (dimensionScores reportModel)))"

definition generateWeaknesses :: "ReportModel \<Rightarrow> RankedDimension list" where
  "generateWeaknesses reportModel =
     map titled (take 2 (rev (sortedDimensions (dimensionScores reportModel))))"

subsection \<open>The summary\<close>

text \<open>
  The summary is a template literal. It is modelled by its parts, in order: the fixed
  texts, the numbers formatted by \<^verbatim>\<open>toFixed(1)\<close> and the numbers converted by the
  template itself.
\<close>

datatype part = Text string | Fixed1 jsnum | Plain jsnum

definition relationship :: "jsnum \<Rightarrow> string" where
  "relationship AG =
     (if js_ge AG (Fin 10) then ''tends to sit above current operational pressure''
      else if js_ge AG (Fin 0) then ''is slightly above current operational pressure''
      else if js_ge AG (Fin (- 10)) then ''is slightly below current operational pressure''
      else ''may indicate a notable gap to current operational pressure'')"

definition generateSummary :: "ReportModel \<Rightarrow> part list" where
  "generateSummary reportModel =
     (let ssi = num_or (SSI reportModel) (Fin 0);
          opi = num_or (map_option op_OPI (operationalPressure reportModel)) (Fin 0);
          AG = (case adequacyGap reportModel of Some g \<Rightarrow> g | None \<Rightarrow> js_sub ssi opi);
          ctx = context_raw reportModel
      in [Text ''Current maturity signals (SSI '', Fixed1 ssi, Text '') '',
          Text (relationship AG), Text '' (OPI '', Fixed1 opi, Text '', AG '', Fixed1 AG,
          Text ''). With team size level '', Plain (num_or (map_of ctx ''teamSize'') (Fin 1)),
          Text '' and AI usage level '', Plain (num_or (map_of ctx ''aiUsage'') (Fin 1)),
          Text '', this tends to indicate where practice consistency may need reinforcement as delivery pace changes.''])"

text \<open>
  The decimal digits of a natural number, and the two conversions of a number to a
  string as far as they are modelled: \<^verbatim>\<open>toFixed(1)\<close> of a number below \<open>10\<^sup>2\<^sup>1\<close> in
  magnitude (on a tie the digit is rounded away from zero), and the conversion of an
  integer below \<open>10\<^sup>2\<^sup>1\<close>. \<open>None\<close> stands for a string that the model does not give (the
  shortest decimal of a binary64 fraction, the exponent notation of a large number).
\<close>

definition digit_char :: "nat \<Rightarrow> char" where
  "digit_char n = char_of (48 + n)"

function digits :: "nat \<Rightarrow> string" where
  "digits n = (if n < 10 then [digit_char n] else digits (n div 10) @ [digit_char (n mod 10)])"
  by pat_completeness auto

termination
  by (relation "measure id") auto

definition toFixed1 :: "jsnum \<Rightarrow> string option" where
  "toFixed1 v =
     (case v of
        NaN \<Rightarrow> Some ''NaN''
      | PInf \<Rightarrow> Some ''Infinity''
      | NInf \<Rightarrow> Some ''-Infinity''
      | Fin x \<Rightarrow>
          if \<bar>x\<bar> \<ge> 10 ^ 21 then None
          else (let n = nat \<lfloor>\<bar>x\<bar> * 10 + 1 / 2\<rfloor>
                in Some ((if x < 0 then ''-'' else '''') @ digits (n div 10) @ ''.'' @ digits (n mod 10))))"

definition number_to_string :: "jsnum \<Rightarrow> string option" where
  "number_to_string v =
     (case v of
        NaN \<Rightarrow> Some ''NaN''
      | PInf \<Rightarrow> Some ''Infinity''
      | NInf \<Rightarrow> Some ''-Infinity''
      | Fin x \<Rightarrow>
          if \<bar>x\<bar> \<ge> 10 ^ 21 \<or> x \<noteq> of_int \<lfloor>x\<rfloor> then None
          else Some ((if x < 0 then ''-'' else '''') @ digits (nat \<lfloor>\<bar>x\<bar>\<rfloor>)))"

fun render_part :: "part \<Rightarrow> string option" where
  "render_part (Text s) = Some s"
| "render_part (Fixed1 v) = toFixed1 v"
| "render_part (Plain v) = number_to_string v"

fun render :: "part list \<Rightarrow> string option" where
  "render [] = Some []"
| "render (p # ps) =
     (case render_part p of
        None \<Rightarrow> None
      | Some s \<Rightarrow> (case render ps of None \<Rightarrow> None | Some t \<Rightarrow> Some (s @ t)))"

subsection \<open>The guidance\<close>

text \<open>\<^verbatim>\<open>Array.from(new Set(tips))\<close>: the first occurrence of each tip, in order.\<close>

definition set_add :: "'a list \<Rightarrow> 'a \<Rightarrow> 'a list" where
  "set_add seen x = (if x \<in> set seen then seen else seen @ [x])"

definition unique_in_order :: "'a list \<Rightarrow> 'a list" where
  "unique_in_order xs = foldl set_add [] xs"

definition entropy_tips :: "string list" where
  "entropy_tips =
     [''Add a contribution RFC template + review gate so AI-assisted changes are triaged with clear owners and decision criteria.'',
      ''Create a weekly governance check-in that reviews incoming system changes, exceptions, and follow-up actions.'']"

definition drift_tips :: "string list" where
  "drift_tips =
     [''Publish system releases on a fixed cadence with release notes and a lightweight migration checklist for consuming teams.'',
      ''Track package adoption and breakages after each release so distribution issues are visible within one sprint.'']"

text \<open>The known dimension names with their tips, in the order of the code.\<close>

definition dimension_tips :: "(string \<times> string) list" where
  "dimension_tips =
     [(''governance'',
       ''Define who approves token/component changes and add a simple intake form so requests follow one visible path.''),
      (''distribution'',
       ''Set up one repeatable publish workflow (version, notes, package release) and treat failed releases as a tracked incident.''),
      (''documentation'',
       ''Update docs in the same pull request as component changes, including examples for loading, empty, and error states.''),
      (''components'',
       ''Standardize component API patterns (states, variants, naming) and add a pre-merge check for accessibility basics.''),
      (''foundations'',
       ''Move core style values into shared tokens and add a lint/review check to reduce hard-coded color and spacing values.''),
      (''adoption'',
       ''Set a quarterly adoption target for two high-traffic flows and review progress with concrete usage metrics.'')]"

definition fallback_tip :: string where
  "fallback_tip =
     ''Pick one low-scoring behavior per dimension and run a 2-week improvement sprint with a clear owner and observable success signal.''"

definition generateGuidance :: "ReportModel \<Rightarrow> string list" where
  "generateGuidance reportModel =
     (let riskFlags = flags (risks reportModel);
          weakest = generateWeaknesses reportModel;
          weakestKeys = map (\<lambda>d. toLowerCase (rd_dimension d)) weakest;
          tips1 = (if entropy_flag \<in> set riskFlags then entropy_tips else []);
          tips2 = tips1 @ (if drift_flag \<in> set riskFlags then drift_tips else []);
          tips3 = foldl (\<lambda>tips (name, tip). if name \<in> set weakestKeys then tips @ [tip] else tips)
                    tips2 dimension_tips;
          tips4 = (if length tips3 = 0 then tips3 @ [fallback_tip] else tips3)
      in unique_in_order tips4)"

section \<open>The export payload (app.js)\<close>

record ExportScore =
  e_avg :: jsnum
  e_score100 :: jsnum

record ExportPayload =
  p_timestamp :: string
  p_contextResponses :: "string \<rightharpoonup> jsnum"
  p_dimensionScores :: "ExportScore obj"
  p_SSI :: jsnum
  p_OPI :: jsnum
  p_adequacyGap :: jsnum
  p_riskFlags :: "string list"
  p_guidanceTips :: "string list"

text \<open>
  The context responses of the application state and the time stamp
  (\<^verbatim>\<open>new Date().toISOString()\<close>) are read from the environment by the code; here they
  are arguments.
\<close>

definition buildExportPayload ::
  "(string \<rightharpoonup> jsnum) \<Rightarrow> string \<Rightarrow> ReportModel \<Rightarrow> string list \<Rightarrow> ExportPayload" where
  "buildExportPayload stateContextResponses now reportModel guidance =
     \<lparr>p_timestamp = now,
      p_contextResponses = stateContextResponses,
      p_dimensionScores = obj_map_entries
        (\<lambda>dimension score.
           \<lparr>e_avg = num_or (Some (ds_avg score)) (Fin 0),
            e_score100 = num_or (Some (ds_score100 score)) (Fin 0)\<rparr>)
        (dimensionScores reportModel),
      p_SSI = num_or (SSI reportModel) (Fin 0),
      p_OPI = num_or (map_option op_OPI (operationalPressure reportModel)) (Fin 0),
      p_adequacyGap = num_or (adequacyGap reportModel) (Fin 0),
      p_riskFlags = flags (risks reportModel),
      p_guidanceTips = guidance\<rparr>"

section \<open>Notions used in the statements\<close>

text \<open>The real number that a normalization returns, for any input.\<close>

definition score14 :: "jsnum \<Rightarrow> real" where
  "score14 v = (case v of Fin x \<Rightarrow> (min 4 (max 1 x) - 1) / 3 * 100 | _ \<Rightarrow> 0)"


fun real_of :: "jsnum \<Rightarrow> real" where
  "real_of (Fin x) = x"
| "real_of v = 0"

text \<open>The entry and the flags that the loop of \<^verbatim>\<open>classifyRisks\<close> makes of one gap.\<close>

definition risk_entry :: "jsnum \<Rightarrow> DimensionRisk" where
  "risk_entry g = \<lparr>r_gap = g, r_risk = js_lt g (Fin (- 15))\<rparr>"

definition gap_flags :: "jsnum obj \<Rightarrow> string list" where
  "gap_flags gaps = map (\<lambda>dg. gap_flag (fst dg)) (filter (\<lambda>dg. js_lt (snd dg) (Fin (- 15))) gaps)"

text \<open>The sum of the clamped answers of a dimension is between 0 and 3 times their number.\<close>

definition stats_ok :: "Stats \<Rightarrow> bool" where
  "stats_ok s = (st_sum s = Fin (real_of (st_sum s)) \<and> 0 \<le> real_of (st_sum s)
                 \<and> real_of (st_sum s) \<le> 3 * real (st_count s))"

text \<open>A dimension score as the aggregator makes it: an average in \<open>[0,3]\<close> and its score.\<close>

definition score_ok :: "DimensionScore \<Rightarrow> bool" where
  "score_ok s = (ds_avg s = Fin (real_of (ds_avg s)) \<and> 0 \<le> real_of (ds_avg s)
                 \<and> real_of (ds_avg s) \<le> 3
                 \<and> ds_score100 s = Fin (real_of (ds_avg s) / 3 * 100))"

text \<open>Descending order of the scores.\<close>

definition score_ge :: "RankedDimension \<Rightarrow> RankedDimension \<Rightarrow> bool" where
  "score_ge a b = js_ge (rd_score100 a) (rd_score100 b)"

definition same_score :: "jsnum \<Rightarrow> RankedDimension \<Rightarrow> bool" where
  "same_score k d = (rd_score100 d = k)"

text \<open>All the tips of the code, in the order in which they can be added.\<close>

definition all_tips :: "string list" where
  "all_tips = entropy_tips @ drift_tips @ map snd dimension_tips @ [fallback_tip]"

text \<open>The five numbers that the summary interpolates.\<close>

definition summary_SSI :: "ReportModel \<Rightarrow> jsnum" where
  "summary_SSI r = num_or (SSI r) (Fin 0)"

definition summary_OPI :: "ReportModel \<Rightarrow> jsnum" where
  "summary_OPI r = num_or (map_option op_OPI (operationalPressure r)) (Fin 0)"

definition summary_AG :: "ReportModel \<Rightarrow> jsnum" where
  "summary_AG r = (case adequacyGap r of Some g \<Rightarrow> g | None \<Rightarrow> js_sub (summary_SSI r) (summary_OPI r))"

definition summary_team :: "ReportModel \<Rightarrow> jsnum" where
  "summary_team r = num_or (map_of (context_raw r) ''teamSize'') (Fin 1)"

definition summary_ai :: "ReportModel \<Rightarrow> jsnum" where
  "summary_ai r = num_or (map_of (context_raw r) ''aiUsage'') (Fin 1)"

text \<open>Every number of the payload is finite.\<close>

definition export_numbers_finite :: "ExportPayload \<Rightarrow> bool" where
  "export_numbers_finite p =
     (isFinite (p_SSI p) \<and> isFinite (p_OPI p) \<and> isFinite (p_adequacyGap p)
      \<and> (\<forall>(d, e) \<in> set (p_dimensionScores p). isFinite (e_avg e) \<and> isFinite (e_score100 e))
      \<and> (\<forall>v \<in> ran (p_contextResponses p). isFinite v))"

text \<open>A context map whose values are all numbers between 1 and 4.\<close>

definition valid_context :: "(string \<rightharpoonup> jsnum) \<Rightarrow> bool" where
  "valid_context contextResponses =
     (\<forall>k v. contextResponses k = Some v \<longrightarrow> (\<exists>x. v = Fin x \<and> 1 \<le> x \<and> x \<le> 4))"

text \<open>A context map whose values are the option scores 1, 2, 3 and 4.\<close>

definition level_context :: "(string \<rightharpoonup> jsnum) \<Rightarrow> bool" where
  "level_context cr = (\<forall>k v. cr k = Some v \<longrightarrow> v \<in> set [Fin 1, Fin 2, Fin 3, Fin 4])"

section \<open>Example inputs\<close>

text \<open>A report that has the given dimension scores and nothing else.\<close>

definition report_of_scores :: "DimensionScore obj \<Rightarrow> ReportModel" where
  "report_of_scores scores =
     \<lparr>context_raw = [], context_normalized100 = [], operationalPressure = None,
      dimensionScores = scores, SSI = None, adequacyGap = None, dimensionGaps = [],
      risks = \<lparr>byDimension = [], flags = [], hasRisk = False\<rparr>\<rparr>"

text \<open>A dimension score with the given \<^verbatim>\<open>score100\<close> and the average that goes with it.\<close>

definition scored :: "real \<Rightarrow> DimensionScore" where
  "scored x = \<lparr>ds_avg = Fin (x * 3 / 100), ds_score100 = Fin x, ds_answered = 1, ds_total = 1\<rparr>"

text \<open>
  Three gaps, one below \<open>-15\<close>, one above and one that is not a number, and a context
  that triggers the entropy rule but not the drift rule.
\<close>

definition example_gaps :: "jsnum obj" where
  "example_gaps = [(''governance'', Fin (- 20)), (''documentation'', Fin 5), (''adoption'', NaN)]"

definition example_risk_context :: RiskContext where
  "example_risk_context =
     \<lparr>c_teamSize = Some (Fin 3), c_aiUsage = Some (Fin 4),
      c_governanceAvg = Some (Fin 1), c_distributionAvg = Some (Fin 2)\<rparr>"

text \<open>A context map with one canonical key and one legacy key.\<close>

definition example_context :: "string \<rightharpoonup> jsnum" where
  "example_context = [''teamSize'' \<mapsto> Fin 3, ''oc_ai_usage'' \<mapsto> Fin 4]"


text \<open>
  The report of the specification, with the scores 90, 50 and 10, and a report with two
  dimensions of equal score.
\<close>

definition abc_report :: ReportModel where
  "abc_report = report_of_scores [(''A'', scored 90), (''B'', scored 50), (''C'', scored 10)]"

definition tie_report :: ReportModel where
  "tie_report = report_of_scores [(''alpha'', scored 50), (''beta'', scored 50)]"

text \<open>
  Two governance questions, answered 0 and 0 or 1 and 2, and a context whose only answer
  is an AI usage of 4.
\<close>

definition governance_questions :: "Question list" where
  "governance_questions =
     [\<lparr>q_id = ''g1'', q_dimension = ''Governance''\<rparr>, \<lparr>q_id = ''g2'', q_dimension = ''Governance''\<rparr>]"

definition governance_zero :: "string \<rightharpoonup> jsnum" where
  "governance_zero = [''g1'' \<mapsto> Fin 0, ''g2'' \<mapsto> Fin 0]"

definition ai_usage_four :: "string \<rightharpoonup> jsnum" where
  "ai_usage_four = [''aiUsage'' \<mapsto> Fin 4]"

definition governance_ones :: "string \<rightharpoonup> jsnum" where
  "governance_ones = [''g1'' \<mapsto> Fin 1, ''g2'' \<mapsto> Fin 2]"

text \<open>The report of two governance answers 0 under an AI usage of 4.\<close>

definition example_report :: ReportModel where
  "example_report = computeReportModel governance_zero ai_usage_four governance_questions"

text \<open>
  A report whose two weakest dimensions are \<^verbatim>\<open>tooling\<close> and \<^verbatim>\<open>Governance\<close>, with both
  flags raised, the drift flag first.
\<close>

definition weak_governance_report :: ReportModel where
  "weak_governance_report =
     (report_of_scores [(''Governance'', scored 20), (''documentation'', scored 80),
                        (''adoption'', scored 40), (''tooling'', scored 10)])
     \<lparr>risks := \<lparr>byDimension = [], flags = [drift_flag, gap_flag ''governance'', entropy_flag], hasRisk = True\<rparr>\<rparr>"

text \<open>A context map with a \<^verbatim>\<open>NaN\<close> and an infinity.\<close>

definition nonfinite_context :: "string \<rightharpoonup> jsnum" where
  "nonfinite_context = [''teamSize'' \<mapsto> NaN, ''aiUsage'' \<mapsto> PInf]"

text \<open>
  A context map with a \<^verbatim>\<open>NaN\<close>, an infinity and values outside \<open>[1,4]\<close>; the canonical
  key \<^verbatim>\<open>toolingFragmentation\<close> comes before its legacy alias.
\<close>

definition unclamped_context :: "string \<rightharpoonup> jsnum" where
  "unclamped_context =
     [''teamSize'' \<mapsto> NaN, ''oc_ai_usage'' \<mapsto> Fin 9, ''releaseFrequency'' \<mapsto> PInf,
      ''toolingFragmentation'' \<mapsto> Fin (- 2), ''oc_tooling_fragmentation'' \<mapsto> Fin 3]"

text \<open>A report that has the given adequacy gap and nothing else.\<close>

definition gap_report :: "jsnum \<Rightarrow> ReportModel" where
  "gap_report g = (report_of_scores [])\<lparr>adequacyGap := Some g\<rparr>"

section \<open>Facts about numbers, normalization and objects\<close>

lemma toClampedNumber_Fin:
  "toClampedNumber (Fin x) (Fin a) (Fin b) = Fin (if b < max a x then b else max a x)"
  by (simp add: toClampedNumber_def max_def)

lemma toClampedNumber_nonfinite:
  "\<not> isFinite v \<Longrightarrow> toClampedNumber v mn mx = mn"
  by (simp add: toClampedNumber_def)

lemma normalize0to3To100_Fin:
  "normalize0to3To100 (Fin x) = Fin (min 3 (max 0 x) / 3 * 100)"
  by (simp add: normalize0to3To100_def toClampedNumber_Fin min_def max_def)

lemma normalize1to4To100_Fin:
  "normalize1to4To100 (Fin x) = Fin ((min 4 (max 1 x) - 1) / 3 * 100)"
  by (simp add: normalize1to4To100_def toClampedNumber_Fin js_sub_def min_def max_def)


lemma normalize1to4To100_nonfinite:
  "\<not> isFinite v \<Longrightarrow> normalize1to4To100 v = Fin 0"
  by (simp add: normalize1to4To100_def toClampedNumber_nonfinite js_sub_def)

lemma scale14_bounds:
  "0 \<le> (min 4 (max 1 (x::real)) - 1) / 3 * 100 \<and> (min 4 (max 1 x) - 1) / 3 * 100 \<le> 100"
  by (simp add: min_def max_def)


lemma normalize1to4To100_eq: "normalize1to4To100 v = Fin (score14 v)"
  by (cases v) (simp_all only: normalize1to4To100_Fin normalize1to4To100_nonfinite
      score14_def jsnum.case isFinite.simps not_False_eq_True)


lemma score14_bounds: "0 \<le> score14 v \<and> score14 v \<le> 100"
  using scale14_bounds by (cases v) (simp_all only: score14_def jsnum.case, simp_all)


lemma obj_set_new: "k \<notin> fst ` set es \<Longrightarrow> obj_set es k v = es @ [(k, v)]"
  by (induction es) auto

lemma map_fst_obj_set:
  "map fst (obj_set es k v) = (if k \<in> fst ` set es then map fst es else map fst es @ [k])"
  by (induction es) force+

lemma foldl_obj_set_distinct:
  "distinct (map fst es) \<Longrightarrow> fst ` set es \<inter> fst ` set acc = {} \<Longrightarrow>
   foldl (\<lambda>out (k, v). obj_set out k (f k v)) acc es = acc @ map (\<lambda>(k, v). (k, f k v)) es"
proof (induction es arbitrary: acc)
  case Nil
  then show ?case by simp
next
  case (Cons e es)
  obtain k v where e: "e = (k, v)" by (cases e)
  from Cons.prems have new: "k \<notin> fst ` set acc" and d: "distinct (map fst es)"
    and kes: "k \<notin> fst ` set es" and disj: "fst ` set es \<inter> fst ` set acc = {}"
    by (auto simp: e)
  have "fst ` set es \<inter> fst ` set (acc @ [(k, f k v)]) = {}"
    using kes disj by auto
  from Cons.IH [OF d this] show ?case
    by (simp add: e obj_set_new [OF new])
qed

lemma obj_map_entries_distinct:
  "distinct (map fst es) \<Longrightarrow> obj_map_entries f es = map (\<lambda>(k, v). (k, f k v)) es"
  using foldl_obj_set_distinct [of es "[]" f] by (simp add: obj_map_entries_def)

lemma map_of_map_entries:
  "map_of (map (\<lambda>(k, v). (k, f k v)) es) d = map_option (f d) (map_of es d)"
  by (induction es) auto

section \<open>Facts about the operational pressure\<close>

lemma computeOperationalPressure_unfold:
  "computeOperationalPressure cr =
     \<lparr>op_OPI = foldl js_add (Fin 0)
         (map (\<lambda>(f, w). js_mul (normalize1to4To100 (resolveContextValue cr (aliases_of f))) w) OPERATIONAL_WEIGHTS),
      op_breakdown = map (\<lambda>(f, w). (f,
         \<lparr>b_raw = resolveContextValue cr (aliases_of f),
          b_score100 = normalize1to4To100 (resolveContextValue cr (aliases_of f)),
          b_weight = w,
          b_contribution = js_mul (normalize1to4To100 (resolveContextValue cr (aliases_of f))) w\<rparr>)) OPERATIONAL_WEIGHTS\<rparr>"
  by (simp add: computeOperationalPressure_def pressure_step_def OPERATIONAL_WEIGHTS_def Let_def)

lemma OPI_sum_of_contributions:
  "op_OPI (computeOperationalPressure cr) =
     foldl js_add (Fin 0) (map (\<lambda>fe. b_contribution (snd fe)) (op_breakdown (computeOperationalPressure cr)))"
  by (simp add: computeOperationalPressure_unfold OPERATIONAL_WEIGHTS_def)

lemma OPI_real:
  "op_OPI (computeOperationalPressure cr) =
     Fin (score14 (resolveContextValue cr (aliases_of ''teamSize'')) * (25 / 100)
        + score14 (resolveContextValue cr (aliases_of ''productComplexity'')) * (25 / 100)
        + score14 (resolveContextValue cr (aliases_of ''aiUsage'')) * (2 / 10)
        + score14 (resolveContextValue cr (aliases_of ''releaseFrequency'')) * (15 / 100)
        + score14 (resolveContextValue cr (aliases_of ''toolingFragmentation'')) * (15 / 100))"
  by (simp add: computeOperationalPressure_unfold OPERATIONAL_WEIGHTS_def normalize1to4To100_eq)

lemma OPI_range:
  "\<exists>opi. op_OPI (computeOperationalPressure cr) = Fin opi \<and> 0 \<le> opi \<and> opi \<le> 100"
proof -
  let ?s = "\<lambda>f. score14 (resolveContextValue cr (aliases_of f))"
  have b: "0 \<le> ?s f \<and> ?s f \<le> 100" for f by (rule score14_bounds)
  have "0 \<le> ?s ''teamSize'' * (25 / 100) + ?s ''productComplexity'' * (25 / 100) + ?s ''aiUsage'' * (2 / 10)
        + ?s ''releaseFrequency'' * (15 / 100) + ?s ''toolingFragmentation'' * (15 / 100)"
    using b [of "''teamSize''"] b [of "''productComplexity''"] b [of "''aiUsage''"]
      b [of "''releaseFrequency''"] b [of "''toolingFragmentation''"] by simp
  moreover have "?s ''teamSize'' * (25 / 100) + ?s ''productComplexity'' * (25 / 100) + ?s ''aiUsage'' * (2 / 10)
        + ?s ''releaseFrequency'' * (15 / 100) + ?s ''toolingFragmentation'' * (15 / 100) \<le> 100"
    using b [of "''teamSize''"] b [of "''productComplexity''"] b [of "''aiUsage''"]
      b [of "''releaseFrequency''"] b [of "''toolingFragmentation''"] by simp
  ultimately show ?thesis using OPI_real [of cr] by blast
qed

lemma weights_sum: "foldl js_add (Fin 0) (map snd OPERATIONAL_WEIGHTS) = Fin 1"
  by (simp add: OPERATIONAL_WEIGHTS_def)

lemma weights_distinct: "distinct (map fst OPERATIONAL_WEIGHTS)"
  by (simp add: OPERATIONAL_WEIGHTS_def)

lemma weight_values:
  "w \<in> snd ` set OPERATIONAL_WEIGHTS \<Longrightarrow> w = Fin (real_of w) \<and> 0 \<le> real_of w \<and> real_of w \<le> 1"
  unfolding OPERATIONAL_WEIGHTS_def by (simp, elim disjE) simp_all

lemma weight_entries:
  assumes "(f, w) \<in> set OPERATIONAL_WEIGHTS"
  shows "map_of OPERATIONAL_WEIGHTS f = Some w \<and> w = Fin (real_of w) \<and> 0 \<le> real_of w \<and> real_of w \<le> 1"
proof
  show "map_of OPERATIONAL_WEIGHTS f = Some w"
    using weights_distinct assms by (rule map_of_is_SomeI)
  have "w \<in> snd ` set OPERATIONAL_WEIGHTS" using assms by force
  then show "w = Fin (real_of w) \<and> 0 \<le> real_of w \<and> real_of w \<le> 1" by (rule weight_values)
qed

lemma breakdown_entry:
  assumes "(f, e) \<in> set (op_breakdown (computeOperationalPressure cr))"
  shows "\<exists>w. map_of OPERATIONAL_WEIGHTS f = Some (Fin w) \<and> 0 \<le> w \<and> w \<le> 1
           \<and> b_raw e = resolveContextValue cr (aliases_of f)
           \<and> b_score100 e = Fin (score14 (b_raw e))
           \<and> b_weight e = Fin w
           \<and> b_contribution e = Fin (score14 (b_raw e) * w)"
proof -
  let ?raw = "resolveContextValue cr (aliases_of f)"
  from assms obtain wt where wt: "(f, wt) \<in> set OPERATIONAL_WEIGHTS"
    and e: "e = \<lparr>b_raw = ?raw, b_score100 = normalize1to4To100 ?raw, b_weight = wt,
                 b_contribution = js_mul (normalize1to4To100 ?raw) wt\<rparr>"
    unfolding computeOperationalPressure_unfold by auto
  from weight_entries [OF wt] have w: "map_of OPERATIONAL_WEIGHTS f = Some (Fin (real_of wt))"
    "wt = Fin (real_of wt)" "0 \<le> real_of wt" "real_of wt \<le> 1" by simp_all
  have c: "js_mul (Fin (score14 ?raw)) wt = Fin (score14 ?raw * real_of wt)"
    by (subst w(2)) simp
  show ?thesis
    using w by (intro exI [of _ "real_of wt"]) (simp add: e normalize1to4To100_eq c)
qed

lemma score14_nonfinite: "\<not> isFinite v \<Longrightarrow> score14 v = 0"
  by (cases v) (simp_all add: score14_def)

section \<open>Facts about the risk classifier\<close>

lemma js_ge_not_lt: "js_ge a b \<Longrightarrow> \<not> js_lt a b"
  by (cases a; cases b) simp_all

lemma num_or_Some_Fin: "num_or (Some (Fin x)) (Fin 0) = Fin x"
  by (simp add: num_or_def)

lemma num_or_ge3: "js_ge (num_or a (Fin 0)) (Fin 3) = (\<exists>v. a = Some v \<and> js_ge v (Fin 3))"
proof (cases a)
  case None
  then show ?thesis by (simp add: num_or_def)
next
  case (Some v)
  then show ?thesis by (cases v) (simp_all add: num_or_def)
qed

lemma num_or_lt2:
  "js_lt (num_or a (Fin 0)) (Fin 2) = (case a of None \<Rightarrow> True | Some v \<Rightarrow> v = NaN \<or> js_lt v (Fin 2))"
proof (cases a)
  case None
  then show ?thesis by (simp add: num_or_def)
next
  case (Some v)
  then show ?thesis by (cases v) (simp_all add: num_or_def)
qed

lemma foldl_risk_step:
  "foldl risk_step (bd, fl) gaps =
     (foldl (\<lambda>out (k, v). obj_set out k (risk_entry v)) bd gaps, fl @ gap_flags gaps)"
  by (induction gaps arbitrary: bd fl)
     (auto simp: risk_step_def risk_entry_def gap_flags_def Let_def)

lemma classifyRisks_unfold:
  "classifyRisks gaps ctx =
     (let fl = gap_flags gaps
            @ (if js_ge (num_or (c_aiUsage ctx) (Fin 0)) (Fin 3) \<and> js_lt (num_or (c_governanceAvg ctx) (Fin 0)) (Fin 2)
               then [entropy_flag] else [])
            @ (if js_ge (num_or (c_teamSize ctx) (Fin 0)) (Fin 3) \<and> js_lt (num_or (c_distributionAvg ctx) (Fin 0)) (Fin 2)
               then [drift_flag] else [])
      in \<lparr>byDimension = obj_map_entries (\<lambda>k. risk_entry) gaps, flags = fl, hasRisk = (fl \<noteq> [])\<rparr>)"
  by (simp add: classifyRisks_def foldl_risk_step obj_map_entries_def Let_def)

lemma gap_flag_inject: "gap_flag d = gap_flag d' \<Longrightarrow> d = d'"
  by (simp add: gap_flag_def)

lemma gap_flag_tail: "take 2 (rev (gap_flag d)) = '')5''"
  by (simp add: gap_flag_def)

lemma gap_flag_not_entropy: "gap_flag d \<noteq> entropy_flag"
proof
  assume "gap_flag d = entropy_flag"
  then have "take 2 (rev (gap_flag d)) = take 2 (rev entropy_flag)" by simp
  then show False by (simp add: gap_flag_tail entropy_flag_def)
qed

lemma gap_flag_not_drift: "gap_flag d \<noteq> drift_flag"
proof
  assume "gap_flag d = drift_flag"
  then have "take 2 (rev (gap_flag d)) = take 2 (rev drift_flag)" by simp
  then show False by (simp add: gap_flag_tail drift_flag_def)
qed

lemma entropy_not_drift: "entropy_flag \<noteq> drift_flag"
  by (simp add: entropy_flag_def drift_flag_def)

lemma gap_flag_in_gap_flags:
  "gap_flag d \<in> set (gap_flags gaps) \<longleftrightarrow> (\<exists>g. (d, g) \<in> set gaps \<and> js_lt g (Fin (- 15)))"
proof
  assume "gap_flag d \<in> set (gap_flags gaps)"
  then obtain d' g where "(d', g) \<in> set gaps" "js_lt g (Fin (- 15))" "gap_flag d = gap_flag d'"
    by (auto simp: gap_flags_def)
  then show "\<exists>g. (d, g) \<in> set gaps \<and> js_lt g (Fin (- 15))"
    using gap_flag_inject [of d d'] by auto
next
  assume "\<exists>g. (d, g) \<in> set gaps \<and> js_lt g (Fin (- 15))"
  then show "gap_flag d \<in> set (gap_flags gaps)"
    by (force simp: gap_flags_def)
qed

lemma gap_flags_are_gap_flags: "x \<in> set (gap_flags gaps) \<Longrightarrow> \<exists>d. x = gap_flag d"
  by (auto simp: gap_flags_def)

lemma entropy_notin_gap_flags: "entropy_flag \<notin> set (gap_flags gaps)"
  using gap_flag_not_entropy gap_flags_are_gap_flags by metis

lemma drift_notin_gap_flags: "drift_flag \<notin> set (gap_flags gaps)"
  using gap_flag_not_drift gap_flags_are_gap_flags by metis

lemma map_of_risk_entries:
  assumes "distinct (map fst gaps)" and "(d, g) \<in> set gaps"
  shows "map_of (obj_map_entries (\<lambda>k. risk_entry) gaps) d = Some (risk_entry g)"
proof -
  have "obj_map_entries (\<lambda>k. risk_entry) gaps = map (\<lambda>(k, v). (k, risk_entry v)) gaps"
    using assms(1) by (rule obj_map_entries_distinct)
  moreover have "map_of (map (\<lambda>(k, v). (k, risk_entry v)) gaps) d = map_option risk_entry (map_of gaps d)"
    by (rule map_of_map_entries)
  moreover have "map_of gaps d = Some g" using assms by (simp add: map_of_is_SomeI) 
  ultimately show ?thesis by simp
qed

section \<open>Facts about the dimension scores\<close>

lemma map_fst_accum_update: "map fst (accum_update acc k f) = map fst acc"
  by (induction acc) (auto simp: accum_update_def)

lemma set_accum_update:
  "(k', s') \<in> set (accum_update acc k f) \<Longrightarrow>
     (k', s') \<in> set acc \<or> (\<exists>s. (k', s) \<in> set acc \<and> s' = f s)"
  by (auto simp: accum_update_def split: if_splits)

lemma map_fst_accum_step:
  "map fst (accum_step responses acc q) =
     (if toLowerCase (q_dimension q) \<in> set (map fst acc) then map fst acc
      else map fst acc @ [toLowerCase (q_dimension q)])"
  by (cases "responses (q_id q)")
     (simp_all add: accum_step_def Let_def map_fst_accum_update map_fst_obj_set map_of_eq_None_iff)

lemma distinct_accum_step:
  "distinct (map fst acc) \<Longrightarrow> distinct (map fst (accum_step responses acc q))"
  by (simp add: map_fst_accum_step)

lemma accum_step_invariant:
  assumes inv: "\<forall>(k, s) \<in> set acc. P s"
    and init: "P \<lparr>st_sum = Fin 0, st_count = 0, st_total = 0\<rparr>"
    and tot: "\<And>s. P s \<Longrightarrow> P (s\<lparr>st_total := st_total s + 1\<rparr>)"
    and ans: "\<And>s r k. P s \<Longrightarrow> responses k = Some r \<Longrightarrow>
        P (s\<lparr>st_sum := js_add (st_sum s) (toClampedNumber r (Fin 0) (Fin 3)), st_count := st_count s + 1\<rparr>)"
  shows "\<forall>(k, s) \<in> set (accum_step responses acc q). P s"
proof -
  let ?key = "toLowerCase (q_dimension q)"
  let ?a1 = "if map_of acc ?key = None
             then obj_set acc ?key \<lparr>st_sum = Fin 0, st_count = 0, st_total = 0\<rparr> else acc"
  let ?a2 = "accum_update ?a1 ?key (\<lambda>s. s\<lparr>st_total := st_total s + 1\<rparr>)"
  have a1: "\<forall>(k, s) \<in> set ?a1. P s"
  proof (cases "map_of acc ?key = None")
    case True
    then have "?key \<notin> fst ` set acc" by (simp add: map_of_eq_None_iff)
    then have "?a1 = acc @ [(?key, \<lparr>st_sum = Fin 0, st_count = 0, st_total = 0\<rparr>)]"
      using True by (simp add: obj_set_new)
    then show ?thesis using inv init by auto
  next
    case False
    then have "?a1 = acc" by (simp only: if_False)
    then show ?thesis using inv by simp
  qed
  have a2: "\<forall>(k, s) \<in> set ?a2. P s"
  proof (clarify)
    fix k s assume "(k, s) \<in> set ?a2"
    from set_accum_update [OF this] a1 tot show "P s" by blast
  qed
  show ?thesis
  proof (cases "responses (q_id q)")
    case None
    then show ?thesis using a2 by (simp add: accum_step_def Let_def)
  next
    case (Some r)
    have "\<forall>(k, s) \<in> set (accum_update ?a2 ?key
        (\<lambda>s. s\<lparr>st_sum := js_add (st_sum s) (toClampedNumber r (Fin 0) (Fin 3)), st_count := st_count s + 1\<rparr>)). P s"
    proof (clarify)
      fix k s assume "(k, s) \<in> set (accum_update ?a2 ?key
        (\<lambda>s. s\<lparr>st_sum := js_add (st_sum s) (toClampedNumber r (Fin 0) (Fin 3)), st_count := st_count s + 1\<rparr>))"
      from set_accum_update [OF this] a2 ans [OF _ Some] show "P s" by blast
    qed
    then show ?thesis using Some by (simp add: accum_step_def Let_def)
  qed
qed

lemma foldl_accum_step_invariant:
  assumes inv: "\<forall>(k, s) \<in> set acc. P s"
    and init: "P \<lparr>st_sum = Fin 0, st_count = 0, st_total = 0\<rparr>"
    and tot: "\<And>s. P s \<Longrightarrow> P (s\<lparr>st_total := st_total s + 1\<rparr>)"
    and ans: "\<And>s r k. P s \<Longrightarrow> responses k = Some r \<Longrightarrow>
        P (s\<lparr>st_sum := js_add (st_sum s) (toClampedNumber r (Fin 0) (Fin 3)), st_count := st_count s + 1\<rparr>)"
  shows "\<forall>(k, s) \<in> set (foldl (accum_step responses) acc qs). P s"
  using inv
proof (induction qs arbitrary: acc)
  case Nil
  then show ?case by simp
next
  case (Cons q qs)
  have "\<forall>(k, s) \<in> set (accum_step responses acc q). P s"
    using Cons.prems init tot ans by (rule accum_step_invariant)
  from Cons.IH [OF this] show ?case by simp
qed



lemma distinct_foldl_accum_step:
  "distinct (map fst acc) \<Longrightarrow> distinct (map fst (foldl (accum_step responses) acc qs))"
  by (induction qs arbitrary: acc) (simp_all add: distinct_accum_step)

lemma computeDimensionScores_map:
  "computeDimensionScores responses qs =
     map (\<lambda>(k, s). (k, score_of_stats s)) (foldl (accum_step responses) [] qs)"
  by (simp add: computeDimensionScores_def Let_def obj_map_entries_distinct distinct_foldl_accum_step)


lemma computeDimensionScores_distinct:
  "distinct (map fst (computeDimensionScores responses qs))"
  using distinct_foldl_accum_step [of "[]" responses qs]
  by (simp add: computeDimensionScores_map comp_def case_prod_unfold)

lemma toClampedNumber03: 
  "toClampedNumber r (Fin 0) (Fin 3) = Fin (real_of (toClampedNumber r (Fin 0) (Fin 3)))
   \<and> 0 \<le> real_of (toClampedNumber r (Fin 0) (Fin 3)) \<and> real_of (toClampedNumber r (Fin 0) (Fin 3)) \<le> 3"
  by (cases r) (simp_all add: toClampedNumber_Fin toClampedNumber_nonfinite max_def)

lemma stats_ok_foldl:
  "\<forall>(k, s) \<in> set (foldl (accum_step responses) [] qs). stats_ok s"
proof (rule foldl_accum_step_invariant)
  fix s r
  assume s: "stats_ok s"
  let ?c = "toClampedNumber r (Fin 0) (Fin 3)"
  from toClampedNumber03 [of r] obtain c where c: "?c = Fin c" "0 \<le> c" "c \<le> 3" by blast
  from s obtain x where x: "st_sum s = Fin x" "0 \<le> x" "x \<le> 3 * real (st_count s)"
    unfolding stats_ok_def by blast
  show "stats_ok (s\<lparr>st_sum := js_add (st_sum s) ?c, st_count := st_count s + 1\<rparr>)"
    using c x by (simp add: stats_ok_def)
qed (simp_all add: stats_ok_def)

lemma score_of_stats_ok:
  assumes "stats_ok s"
  shows "ds_avg (score_of_stats s) = Fin (real_of (ds_avg (score_of_stats s)))
       \<and> 0 \<le> real_of (ds_avg (score_of_stats s)) \<and> real_of (ds_avg (score_of_stats s)) \<le> 3
       \<and> ds_score100 (score_of_stats s) = Fin (real_of (ds_avg (score_of_stats s)) / 3 * 100)"
proof -
  from assms obtain x where x: "st_sum s = Fin x" "0 \<le> x" "x \<le> 3 * real (st_count s)"
    unfolding stats_ok_def by blast
  show ?thesis
  proof (cases "st_count s > 0")
    case True
    then have avg: "ds_avg (score_of_stats s) = Fin (x / real (st_count s))"
      by (simp add: score_of_stats_def x Let_def)
    have lo: "0 \<le> x / real (st_count s)" using x by simp
    have hi: "x / real (st_count s) \<le> 3" using x True by (simp add: pos_divide_le_eq)
    have "ds_score100 (score_of_stats s) = normalize0to3To100 (Fin (x / real (st_count s)))"
      using True by (simp add: score_of_stats_def x Let_def)
    also have "\<dots> = Fin (x / real (st_count s) / 3 * 100)"
      using lo hi by (simp only: normalize0to3To100_Fin min_absorb2 max_absorb2)
    finally show ?thesis using avg lo hi by simp
  next
    case False
    then show ?thesis by (simp add: score_of_stats_def normalize0to3To100_Fin Let_def)
  qed
qed

section \<open>Facts about the composite index and the gaps\<close>

lemma computeDimensionScores_ok:
  assumes "(d, s) \<in> set (computeDimensionScores responses qs)"
  shows "score_ok s"
proof -
  from assms obtain st where st: "(d, st) \<in> set (foldl (accum_step responses) [] qs)"
    and s: "s = score_of_stats st"
    by (auto simp: computeDimensionScores_map)
  from stats_ok_foldl [of responses qs] st have "stats_ok st" by blast
  from score_of_stats_ok [OF this] show ?thesis by (simp add: score_ok_def s)
qed

lemma score_ok_score100:
  "score_ok s \<Longrightarrow> ds_score100 s = Fin (real_of (ds_score100 s))
     \<and> 0 \<le> real_of (ds_score100 s) \<and> real_of (ds_score100 s) \<le> 100"
  by (simp add: score_ok_def)

lemma foldl_score_sum:
  assumes "\<forall>s \<in> set vals. ds_score100 s = Fin (real_of (ds_score100 s))"
  shows "foldl (\<lambda>t d. js_add t (num_or (Some (ds_score100 d)) (Fin 0))) (Fin a) vals
       = Fin (a + sum_list (map (\<lambda>d. real_of (ds_score100 d)) vals))"
  using assms
proof (induction vals arbitrary: a)
  case Nil
  then show ?case by simp
next
  case (Cons v vals)
  from Cons.prems have v: "ds_score100 v = Fin (real_of (ds_score100 v))" by simp
  have "num_or (Some (ds_score100 v)) (Fin 0) = Fin (real_of (ds_score100 v))"
    by (subst v) (simp add: num_or_def)
  then have "js_add (Fin a) (num_or (Some (ds_score100 v)) (Fin 0)) = Fin (a + real_of (ds_score100 v))"
    by simp
  with Cons.IH [of "a + real_of (ds_score100 v)"] Cons.prems show ?case
    by (simp add: add.assoc)
qed

lemma sum_list_bounds:
  assumes "\<forall>x \<in> set xs. 0 \<le> f x \<and> f x \<le> (c::real)"
  shows "0 \<le> sum_list (map f xs) \<and> sum_list (map f xs) \<le> c * real (length xs)"
  using assms by (induction xs) (auto simp: algebra_simps)

lemma computeSSI_real:
  assumes "\<forall>(d, s) \<in> set ds. score_ok s"
  shows "computeSSI ds = Fin (real_of (computeSSI ds))
       \<and> 0 \<le> real_of (computeSSI ds) \<and> real_of (computeSSI ds) \<le> 100"
proof (cases "ds = []")
  case True
  then show ?thesis by (simp add: computeSSI_def)
next
  case False
  let ?vals = "map snd ds"
  let ?t = "sum_list (map (\<lambda>d. real_of (ds_score100 d)) ?vals)"
  have ok: "\<forall>s \<in> set ?vals. ds_score100 s = Fin (real_of (ds_score100 s))
      \<and> 0 \<le> real_of (ds_score100 s) \<and> real_of (ds_score100 s) \<le> 100"
    using assms score_ok_score100 by fastforce
  then have "foldl (\<lambda>t d. js_add t (num_or (Some (ds_score100 d)) (Fin 0))) (Fin 0) ?vals = Fin (0 + ?t)"
    by (intro foldl_score_sum) blast
  then have ssi: "computeSSI ds = Fin (?t / real (length ds))"
    using False by (simp add: computeSSI_def Let_def)
  have b: "0 \<le> ?t \<and> ?t \<le> 100 * real (length ?vals)"
    using ok by (intro sum_list_bounds) blast
  have n: "0 < real (length ds)" using False by simp
  have "0 \<le> ?t / real (length ds)" using b n by simp
  moreover have "?t / real (length ds) \<le> 100" using b n by (simp add: pos_divide_le_eq)
  ultimately show ?thesis using ssi by simp
qed


lemma computeDimensionGaps_map:
  "distinct (map fst ds) \<Longrightarrow>
   computeDimensionGaps ds opi =
     map (\<lambda>(d, s). (d, js_sub (num_or (Some (ds_score100 s)) (Fin 0)) (num_or (Some opi) (Fin 0)))) ds"
  by (simp add: computeDimensionGaps_def obj_map_entries_distinct)







section \<open>Facts about the assembled report\<close>

lemma report_flags:
  "flags (risks (computeReportModel rs cr qs)) =
     gap_flags (computeDimensionGaps (computeDimensionScores rs qs) (op_OPI (computeOperationalPressure cr)))
     @ (if js_ge (num_or (Some (resolveContextValue cr (aliases_of ''aiUsage''))) (Fin 0)) (Fin 3)
           \<and> js_lt (num_or (Some (num_or (map_option ds_avg
                  (map_of (computeDimensionScores rs qs) ''governance'')) (Fin 0))) (Fin 0)) (Fin 2)
        then [entropy_flag] else [])
     @ (if js_ge (num_or (Some (resolveContextValue cr (aliases_of ''teamSize''))) (Fin 0)) (Fin 3)
           \<and> js_lt (num_or (Some (num_or (map_option ds_avg
                  (map_of (computeDimensionScores rs qs) ''distribution'')) (Fin 0))) (Fin 0)) (Fin 2)
        then [drift_flag] else [])"
  by (simp add: computeReportModel_def classifyRisks_unfold Let_def)

lemma OPI_at_least_ai:
  assumes "resolveContextValue cr (aliases_of ''aiUsage'') = Fin 4"
  shows "\<exists>opi. op_OPI (computeOperationalPressure cr) = Fin opi \<and> 20 \<le> opi \<and> opi \<le> 100"
proof -
  let ?s = "\<lambda>f. score14 (resolveContextValue cr (aliases_of f))"
  have b: "0 \<le> ?s f \<and> ?s f \<le> 100" for f by (rule score14_bounds)
  have ai: "?s ''aiUsage'' = 100" by (simp add: assms score14_def)
  have "20 \<le> ?s ''teamSize'' * (25 / 100) + ?s ''productComplexity'' * (25 / 100) + ?s ''aiUsage'' * (2 / 10)
        + ?s ''releaseFrequency'' * (15 / 100) + ?s ''toolingFragmentation'' * (15 / 100)"
    using b [of "''teamSize''"] b [of "''productComplexity''"] ai
      b [of "''releaseFrequency''"] b [of "''toolingFragmentation''"] by simp
  moreover have "?s ''teamSize'' * (25 / 100) + ?s ''productComplexity'' * (25 / 100) + ?s ''aiUsage'' * (2 / 10)
        + ?s ''releaseFrequency'' * (15 / 100) + ?s ''toolingFragmentation'' * (15 / 100) \<le> 100"
    using b [of "''teamSize''"] b [of "''productComplexity''"] b [of "''aiUsage''"]
      b [of "''releaseFrequency''"] b [of "''toolingFragmentation''"] by simp
  ultimately show ?thesis using OPI_real [of cr] by blast
qed

lemma num_or_score_avg:
  assumes "score_ok s"
  shows "num_or (Some (ds_avg s)) (Fin 0) = ds_avg s"
    and "num_or (Some (ds_score100 s)) (Fin 0) = ds_score100 s"
proof -
  from assms have a: "ds_avg s = Fin (real_of (ds_avg s))"
    and b: "ds_score100 s = Fin (real_of (ds_avg s) / 3 * 100)"
    by (simp_all add: score_ok_def)
  show "num_or (Some (ds_avg s)) (Fin 0) = ds_avg s"
    by (subst (1 2) a) (simp add: num_or_def)
  show "num_or (Some (ds_score100 s)) (Fin 0) = ds_score100 s"
    by (subst (1 2) b) (simp add: num_or_def)
qed

lemma num_or_idem: "num_or (Some (num_or a (Fin 0))) (Fin 0) = num_or a (Fin 0)"
  by (cases a) (auto simp: num_or_def)

lemma num_or_Some_ge3: "js_ge (num_or (Some v) (Fin 0)) (Fin 3) = js_ge v (Fin 3)"
  by (simp add: num_or_ge3)

lemma report_dimensionGaps:
  "dimensionGaps (computeReportModel rs cr qs) =
     computeDimensionGaps (computeDimensionScores rs qs) (op_OPI (computeOperationalPressure cr))"
  by (simp add: computeReportModel_def Let_def)

lemma isFinite_num_or_Fin: "isFinite (num_or (Some (Fin x)) (Fin 0))"
  by (simp add: num_or_def)

lemma report_numbers:
  "\<exists>ssi opi. SSI (computeReportModel rs cr qs) = Some (Fin ssi) \<and> 0 \<le> ssi \<and> ssi \<le> 100
     \<and> map_option op_OPI (operationalPressure (computeReportModel rs cr qs)) = Some (Fin opi)
     \<and> 0 \<le> opi \<and> opi \<le> 100
     \<and> adequacyGap (computeReportModel rs cr qs) = Some (Fin (ssi - opi))"
proof -
  let ?ds = "computeDimensionScores rs qs"
  have "\<forall>(d, s) \<in> set ?ds. score_ok s" using computeDimensionScores_ok by blast
  from computeSSI_real [OF this] obtain ssi where ssi: "computeSSI ?ds = Fin ssi" "0 \<le> ssi" "ssi \<le> 100"
    by blast
  from OPI_range [of cr] obtain opi where opi: "op_OPI (computeOperationalPressure cr) = Fin opi"
    "0 \<le> opi" "opi \<le> 100" by blast
  have "adequacyGap (computeReportModel rs cr qs) = Some (Fin (ssi - opi))"
    by (simp add: computeReportModel_def Let_def ssi opi computeAdequacyGap_def num_or_def js_sub_def)
  moreover have "SSI (computeReportModel rs cr qs) = Some (Fin ssi)"
    by (simp add: computeReportModel_def Let_def ssi)
  moreover have "map_option op_OPI (operationalPressure (computeReportModel rs cr qs)) = Some (Fin opi)"
    by (simp add: computeReportModel_def Let_def opi)
  ultimately show ?thesis using ssi opi by blast
qed

lemma report_dimensionScores:
  "dimensionScores (computeReportModel rs cr qs) = computeDimensionScores rs qs"
  by (simp add: computeReportModel_def Let_def)

section \<open>Facts about the sort of the dimensions\<close>

lemma num_or_not_NaN: "num_or a (Fin 0) \<noteq> NaN"
  by (cases a) (auto simp: num_or_def split: if_splits)

lemma ranked_entry_not_NaN: "rd_score100 (ranked_entry e) \<noteq> NaN"
  by (cases e) (simp add: ranked_entry_def num_or_not_NaN)

lemma sub_positive_iff_lt:
  "a \<noteq> NaN \<Longrightarrow> b \<noteq> NaN \<Longrightarrow> js_lt (Fin 0) (js_sub b a) = js_lt a b"
  by (cases a; cases b) (simp_all add: js_sub_def)

lemma js_ge_iff_not_lt: "a \<noteq> NaN \<Longrightarrow> b \<noteq> NaN \<Longrightarrow> js_ge a b = (\<not> js_lt a b)"
  by (cases a; cases b) simp_all

lemma js_lt_imp_ge: "js_lt a b \<Longrightarrow> js_ge b a"
  by (cases a; cases b) simp_all

lemma js_ge_trans: "js_ge a b \<Longrightarrow> js_ge b c \<Longrightarrow> js_ge a c"
  by (cases a; cases b; cases c) simp_all

lemma js_lt_irrefl: "\<not> js_lt a a"
  by (cases a) simp_all

lemma set_sort_insert: "set (sort_insert cmp x ys) = insert x (set ys)"
  by (induction ys) auto

lemma mset_sort_insert: "mset (sort_insert cmp x ys) = add_mset x (mset ys)"
  by (induction ys) auto

lemma mset_js_sort: "mset (js_sort cmp xs) = mset xs"
  by (induction xs) (simp_all add: mset_sort_insert)

lemma set_js_sort: "set (js_sort cmp xs) = set xs"
  using mset_js_sort [of cmp xs] by (metis set_mset_mset)

lemma sorted_sort_insert:
  assumes "sorted_wrt score_ge ys" and "rd_score100 x \<noteq> NaN" and "\<forall>y \<in> set ys. rd_score100 y \<noteq> NaN"
  shows "sorted_wrt score_ge (sort_insert by_score_descending x ys)"
  using assms
proof (induction ys)
  case Nil
  then show ?case by simp
next
  case (Cons y ys)
  have pos: "js_lt (Fin 0) (by_score_descending x y) = js_lt (rd_score100 x) (rd_score100 y)"
    using Cons.prems by (simp add: by_score_descending_def sub_positive_iff_lt)
  show ?case
  proof (cases "js_lt (rd_score100 x) (rd_score100 y)")
    case True
    then have "score_ge y x" by (simp add: score_ge_def js_lt_imp_ge)
    moreover have "sorted_wrt score_ge (sort_insert by_score_descending x ys)"
      using Cons by simp
    ultimately show ?thesis using True Cons.prems(1) by (simp add: pos set_sort_insert)
  next
    case False
    then have xy: "score_ge x y" using Cons.prems by (simp add: score_ge_def js_ge_iff_not_lt)
    have "\<forall>z \<in> set ys. score_ge x z"
      using xy Cons.prems(1) by (auto simp: score_ge_def intro: js_ge_trans)
    then show ?thesis using False xy Cons.prems(1) by (simp add: pos)
  qed
qed

lemma sorted_js_sort:
  "\<forall>x \<in> set xs. rd_score100 x \<noteq> NaN \<Longrightarrow> sorted_wrt score_ge (js_sort by_score_descending xs)"
  by (induction xs) (simp_all add: sorted_sort_insert set_js_sort)

lemma filter_sort_insert:
  assumes "rd_score100 x \<noteq> NaN" and "\<forall>y \<in> set ys. rd_score100 y \<noteq> NaN"
  shows "filter (same_score k) (sort_insert by_score_descending x ys) =
         (if same_score k x then x # filter (same_score k) ys else filter (same_score k) ys)"
  using assms
proof (induction ys)
  case Nil
  then show ?case by simp
next
  case (Cons y ys)
  have pos: "js_lt (Fin 0) (by_score_descending x y) = js_lt (rd_score100 x) (rd_score100 y)"
    using Cons.prems by (simp add: by_score_descending_def sub_positive_iff_lt)
  have diff: "js_lt (rd_score100 x) (rd_score100 y) \<Longrightarrow> \<not> (same_score k x \<and> same_score k y)"
    using js_lt_irrefl by (auto simp: same_score_def)
  show ?case using Cons diff by (auto simp: pos)
qed

lemma filter_js_sort:
  "\<forall>x \<in> set xs. rd_score100 x \<noteq> NaN \<Longrightarrow>
   filter (same_score k) (js_sort by_score_descending xs) = filter (same_score k) xs"
  by (induction xs) (simp_all add: filter_sort_insert set_js_sort)

lemma prefix_filter_take: "prefix (filter P (take n xs)) (filter P xs)"
proof -
  have "filter P xs = filter P (take n xs) @ filter P (drop n xs)"
    by (metis append_take_drop_id filter_append)
  then show ?thesis by (metis prefixI)
qed

section \<open>Facts about the guidance\<close>

lemma lower_upper_char: "lower_char (upper_char c) = lower_char c"
proof (cases "97 \<le> (of_char c :: nat) \<and> (of_char c :: nat) \<le> 122")
  case True
  let ?n = "of_char c :: nat"
  have u: "upper_char c = char_of (?n - 32)" using True by (simp add: upper_char_def Let_def)
  have lt: "?n - 32 < 256" and lo: "65 \<le> ?n - 32" and hi: "?n - 32 \<le> 90"
    and bk: "?n - 32 + 32 = ?n" and notup: "\<not> (65 \<le> ?n \<and> ?n \<le> 90)"
    using True by arith+
  have "(of_char (char_of (?n - 32) :: char) :: nat) = (?n - 32) mod 256" by simp
  also have "\<dots> = ?n - 32" using lt by (rule mod_less)
  finally have o: "(of_char (char_of (?n - 32) :: char) :: nat) = ?n - 32" .
  have "lower_char (upper_char c) = char_of (?n - 32 + 32)"
    unfolding u lower_char_def Let_def o using lo hi by (simp only: conj_commute simp_thms if_True)
  also have "\<dots> = c" unfolding bk by simp
  also have "c = lower_char c" using notup by (simp only: lower_char_def Let_def if_False)
  finally show ?thesis .
next
  case False
  then have "upper_char c = c" by (auto simp: upper_char_def Let_def)
  then show ?thesis by simp
qed

lemma toLowerCase_toTitle: "toLowerCase (toTitle k) = toLowerCase k"
  by (cases k) (simp_all add: toLowerCase_def lower_upper_char)

lemma foldl_set_add:
  "distinct (acc @ xs) \<Longrightarrow> foldl set_add acc xs = acc @ xs"
  by (induction xs arbitrary: acc) (simp_all add: set_add_def)

lemma unique_in_order_distinct: "distinct xs \<Longrightarrow> unique_in_order xs = xs"
  using foldl_set_add [of "[]" xs] by (simp add: unique_in_order_def)

lemma foldl_push_if:
  "foldl (\<lambda>tips (name, tip). if P name then tips @ [tip] else tips) acc nts =
     acc @ map snd (filter (\<lambda>nt. P (fst nt)) nts)"
  by (induction nts arbitrary: acc) (auto simp: case_prod_unfold)

lemma distinct_all_tips: "distinct all_tips"
  by (simp add: all_tips_def entropy_tips_def drift_tips_def dimension_tips_def fallback_tip_def)

lemma distinct_tip_parts:
  assumes "a = [] \<or> a = entropy_tips" and "b = [] \<or> b = drift_tips"
  shows "distinct (a @ b @ map snd (filter P dimension_tips))"
proof -
  let ?c = "map snd (filter P dimension_tips)"
  from distinct_all_tips have d: "distinct (entropy_tips @ drift_tips @ map snd dimension_tips)"
    by (simp add: all_tips_def)
  have c: "distinct ?c" using d by (simp add: distinct_map_filter)
  have cs: "set ?c \<subseteq> set (map snd dimension_tips)" by auto
  have as: "set a \<subseteq> set entropy_tips" and ad: "distinct a" using assms(1) d by auto
  have bs: "set b \<subseteq> set drift_tips" and bd: "distinct b" using assms(2) d by auto
  have "set entropy_tips \<inter> set drift_tips = {}"
    "set entropy_tips \<inter> set (map snd dimension_tips) = {}"
    "set drift_tips \<inter> set (map snd dimension_tips) = {}"
    using d by auto
  with as bs cs have "set a \<inter> set b = {}" "set a \<inter> set ?c = {}" "set b \<inter> set ?c = {}"
    by blast+
  with ad bd c show ?thesis by auto
qed

lemma weakest_keys:
  "map (\<lambda>d. toLowerCase (rd_dimension d)) (generateWeaknesses r) =
     map (\<lambda>d. toLowerCase (rd_dimension d)) (take 2 (rev (sortedDimensions (dimensionScores r))))"
  by (simp add: generateWeaknesses_def titled_def toLowerCase_toTitle comp_def)

section \<open>Facts about the summary\<close>

lemma relationship_bands:
  "(js_ge g (Fin 10) \<longrightarrow> relationship g = ''tends to sit above current operational pressure'')
   \<and> (js_ge g (Fin 0) \<and> js_lt g (Fin 10) \<longrightarrow>
        relationship g = ''is slightly above current operational pressure'')
   \<and> (js_ge g (Fin (- 10)) \<and> js_lt g (Fin 0) \<longrightarrow>
        relationship g = ''is slightly below current operational pressure'')
   \<and> (js_lt g (Fin (- 10)) \<longrightarrow>
        relationship g = ''may indicate a notable gap to current operational pressure'')"
  by (cases g) (simp_all add: relationship_def)

lemma digits_single: "n < 10 \<Longrightarrow> digits n = [digit_char n]"
  by (subst digits.simps) simp

lemma toFixed1_rounds:
  assumes "\<bar>x\<bar> < 10 ^ 21"
  shows "\<exists>n. toFixed1 (Fin x) =
           Some ((if x < 0 then ''-'' else '''') @ digits (n div 10) @ ''.'' @ [digit_char (n mod 10)])
         \<and> \<bar>real n / 10 - \<bar>x\<bar>\<bar> \<le> 1 / 20"
proof -
  let ?n = "nat \<lfloor>\<bar>x\<bar> * 10 + 1 / 2\<rfloor>"
  have nn: "0 \<le> \<lfloor>\<bar>x\<bar> * 10 + 1 / 2\<rfloor>" by simp
  then have r: "real ?n = of_int \<lfloor>\<bar>x\<bar> * 10 + 1 / 2\<rfloor>" by simp
  have "of_int \<lfloor>\<bar>x\<bar> * 10 + 1 / 2\<rfloor> \<le> \<bar>x\<bar> * 10 + 1 / 2"
    and "\<bar>x\<bar> * 10 + 1 / 2 < of_int \<lfloor>\<bar>x\<bar> * 10 + 1 / 2\<rfloor> + 1"
    by linarith+
  then have "\<bar>real ?n / 10 - \<bar>x\<bar>\<bar> \<le> 1 / 20" unfolding r by linarith
  moreover have "toFixed1 (Fin x) =
      Some ((if x < 0 then ''-'' else '''') @ digits (?n div 10) @ ''.'' @ [digit_char (?n mod 10)])"
    using assms by (simp add: toFixed1_def Let_def digits_single)
  ultimately show ?thesis by blast
qed

section \<open>The risk classifier\<close>

text \<open>
  Claim C1. For every input of \<^verbatim>\<open>classifyRisks\<close> (the entries of a dimension-gaps object,
  whose keys are pairwise distinct, and a context record): the flags are, in this order,
  one flag \<^verbatim>\<open>"<dimension> risk (gap < -15)"\<close> for each dimension whose gap is below
  \<open>-15\<close>, then the entropy flag if and only if \<^verbatim>\<open>aiUsage >= 3\<close> and
  \<^verbatim>\<open>governanceAvg < 2\<close>, then the drift flag if and only if \<^verbatim>\<open>teamSize >= 3\<close> and
  \<^verbatim>\<open>distributionAvg < 2\<close>; no rule stops another. A dimension with a gap below \<open>-15\<close>
  has the entry \<^verbatim>\<open>{gap, risk: true}\<close>, a dimension with a gap of at least \<open>-15\<close> has
  \<^verbatim>\<open>{gap, risk: false}\<close> and no flag, and \<^verbatim>\<open>hasRisk\<close> holds exactly when the list of
  flags is not empty. The four context values are the ones the code compares,
  \<^verbatim>\<open>Number(context.x || 0)\<close>: for \<^verbatim>\<open>aiUsage\<close> and \<^verbatim>\<open>teamSize\<close> the comparison with 3 is
  that of the field itself; an absent or \<^verbatim>\<open>NaN\<close> average counts as 0, hence as below 2.
\<close>

theorem classifyRisks_rules:
  assumes "distinct (map fst gaps)"
  shows "flags (classifyRisks gaps ctx) =
        map (\<lambda>dg. fst dg @ '' risk (gap < -15)'') (filter (\<lambda>dg. js_lt (snd dg) (Fin (- 15))) gaps)
        @ (if js_ge (num_or (c_aiUsage ctx) (Fin 0)) (Fin 3)
              \<and> js_lt (num_or (c_governanceAvg ctx) (Fin 0)) (Fin 2)
           then [''Entropy risk (AI velocity > governance)''] else [])
        @ (if js_ge (num_or (c_teamSize ctx) (Fin 0)) (Fin 3)
              \<and> js_lt (num_or (c_distributionAvg ctx) (Fin 0)) (Fin 2)
           then [''Drift risk (scale > release discipline)''] else [])
    \<and> byDimension (classifyRisks gaps ctx) =
        map (\<lambda>(d, g). (d, \<lparr>r_gap = g, r_risk = js_lt g (Fin (- 15))\<rparr>)) gaps
    \<and> (\<forall>(d, g) \<in> set gaps. js_lt g (Fin (- 15)) \<longrightarrow>
          d @ '' risk (gap < -15)'' \<in> set (flags (classifyRisks gaps ctx))
          \<and> map_of (byDimension (classifyRisks gaps ctx)) d = Some \<lparr>r_gap = g, r_risk = True\<rparr>)
    \<and> (\<forall>(d, g) \<in> set gaps. js_ge g (Fin (- 15)) \<longrightarrow>
          d @ '' risk (gap < -15)'' \<notin> set (flags (classifyRisks gaps ctx))
          \<and> map_of (byDimension (classifyRisks gaps ctx)) d = Some \<lparr>r_gap = g, r_risk = False\<rparr>)
    \<and> (''Entropy risk (AI velocity > governance)'' \<in> set (flags (classifyRisks gaps ctx))
          \<longleftrightarrow> js_ge (num_or (c_aiUsage ctx) (Fin 0)) (Fin 3)
              \<and> js_lt (num_or (c_governanceAvg ctx) (Fin 0)) (Fin 2))
    \<and> (''Drift risk (scale > release discipline)'' \<in> set (flags (classifyRisks gaps ctx))
          \<longleftrightarrow> js_ge (num_or (c_teamSize ctx) (Fin 0)) (Fin 3)
              \<and> js_lt (num_or (c_distributionAvg ctx) (Fin 0)) (Fin 2))
    \<and> (hasRisk (classifyRisks gaps ctx)
          \<longleftrightarrow> flags (classifyRisks gaps ctx) \<noteq> [])
    \<and> (js_ge (num_or (c_aiUsage ctx) (Fin 0)) (Fin 3)
          \<longleftrightarrow> (\<exists>v. c_aiUsage ctx = Some v \<and> js_ge v (Fin 3)))
    \<and> (js_ge (num_or (c_teamSize ctx) (Fin 0)) (Fin 3)
          \<longleftrightarrow> (\<exists>v. c_teamSize ctx = Some v \<and> js_ge v (Fin 3)))
    \<and> (js_lt (num_or (c_governanceAvg ctx) (Fin 0)) (Fin 2)
          \<longleftrightarrow> (case c_governanceAvg ctx of None \<Rightarrow> True | Some v \<Rightarrow> v = NaN \<or> js_lt v (Fin 2)))
    \<and> (js_lt (num_or (c_distributionAvg ctx) (Fin 0)) (Fin 2)
          \<longleftrightarrow> (case c_distributionAvg ctx of None \<Rightarrow> True | Some v \<Rightarrow> v = NaN \<or> js_lt v (Fin 2)))"
proof -
  let ?r = "classifyRisks gaps ctx"
  let ?E = "js_ge (num_or (c_aiUsage ctx) (Fin 0)) (Fin 3)
              \<and> js_lt (num_or (c_governanceAvg ctx) (Fin 0)) (Fin 2)"
  let ?D = "js_ge (num_or (c_teamSize ctx) (Fin 0)) (Fin 3)
              \<and> js_lt (num_or (c_distributionAvg ctx) (Fin 0)) (Fin 2)"
  have fl: "flags ?r = gap_flags gaps @ (if ?E then [entropy_flag] else [])
      @ (if ?D then [drift_flag] else [])"
    by (simp add: classifyRisks_unfold Let_def)
  have bd: "byDimension ?r = obj_map_entries (\<lambda>k. risk_entry) gaps"
    by (simp add: classifyRisks_unfold Let_def)
  have c1: "flags ?r =
        map (\<lambda>dg. fst dg @ '' risk (gap < -15)'') (filter (\<lambda>dg. js_lt (snd dg) (Fin (- 15))) gaps)
        @ (if ?E then [''Entropy risk (AI velocity > governance)''] else [])
        @ (if ?D then [''Drift risk (scale > release discipline)''] else [])"
    unfolding fl gap_flags_def gap_flag_def entropy_flag_def drift_flag_def ..
  have c2: "byDimension ?r = map (\<lambda>(d, g). (d, \<lparr>r_gap = g, r_risk = js_lt g (Fin (- 15))\<rparr>)) gaps"
    unfolding bd using obj_map_entries_distinct [OF assms, of "\<lambda>k. risk_entry"]
    by (simp add: risk_entry_def)
  have c3: "\<forall>(d, g) \<in> set gaps. js_lt g (Fin (- 15)) \<longrightarrow>
          d @ '' risk (gap < -15)'' \<in> set (flags ?r)
          \<and> map_of (byDimension ?r) d = Some \<lparr>r_gap = g, r_risk = True\<rparr>"
  proof (clarify)
    fix d g assume dg: "(d, g) \<in> set gaps" and lt: "js_lt g (Fin (- 15))"
    have "gap_flag d \<in> set (gap_flags gaps)"
      using dg lt gap_flag_in_gap_flags by blast
    then have a: "d @ '' risk (gap < -15)'' \<in> set (flags ?r)"
      unfolding fl by (simp add: gap_flag_def)
    have b: "map_of (byDimension ?r) d = Some \<lparr>r_gap = g, r_risk = True\<rparr>"
      unfolding bd using map_of_risk_entries [OF assms dg] lt by (simp add: risk_entry_def)
    from a b show "d @ '' risk (gap < -15)'' \<in> set (flags ?r)
          \<and> map_of (byDimension ?r) d = Some \<lparr>r_gap = g, r_risk = True\<rparr>" ..
  qed
  have c4: "\<forall>(d, g) \<in> set gaps. js_ge g (Fin (- 15)) \<longrightarrow>
          d @ '' risk (gap < -15)'' \<notin> set (flags ?r)
          \<and> map_of (byDimension ?r) d = Some \<lparr>r_gap = g, r_risk = False\<rparr>"
  proof (clarify)
    fix d g assume dg: "(d, g) \<in> set gaps" and ge: "js_ge g (Fin (- 15))"
    have nlt: "\<not> js_lt g (Fin (- 15))" using ge by (rule js_ge_not_lt)
    have "gap_flag d \<notin> set (gap_flags gaps)"
    proof
      assume "gap_flag d \<in> set (gap_flags gaps)"
      then obtain g' where g': "(d, g') \<in> set gaps" "js_lt g' (Fin (- 15))"
        using gap_flag_in_gap_flags by blast
      have "g' = g" using assms dg g'(1) by (meson eq_key_imp_eq_value)
      with g'(2) nlt show False by simp
    qed
    then have a: "d @ '' risk (gap < -15)'' \<notin> set (flags ?r)"
      unfolding fl using gap_flag_not_entropy [of d] gap_flag_not_drift [of d]
      by (simp add: gap_flag_def)
    have b: "map_of (byDimension ?r) d = Some \<lparr>r_gap = g, r_risk = False\<rparr>"
      unfolding bd using map_of_risk_entries [OF assms dg] nlt by (simp add: risk_entry_def)
    from a b show "d @ '' risk (gap < -15)'' \<notin> set (flags ?r)
          \<and> map_of (byDimension ?r) d = Some \<lparr>r_gap = g, r_risk = False\<rparr>" ..
  qed
  have c5: "''Entropy risk (AI velocity > governance)'' \<in> set (flags ?r) \<longleftrightarrow> ?E"
    unfolding fl using entropy_notin_gap_flags [of gaps] entropy_not_drift
    by (simp add: entropy_flag_def)
  have c6: "''Drift risk (scale > release discipline)'' \<in> set (flags ?r) \<longleftrightarrow> ?D"
    unfolding fl using drift_notin_gap_flags [of gaps] entropy_not_drift
    by (simp add: drift_flag_def)
  have c7: "hasRisk ?r \<longleftrightarrow> flags ?r \<noteq> []"
    by (simp add: classifyRisks_unfold Let_def)
  from c1 c2 c3 c4 c5 c6 c7 num_or_ge3 [of "c_aiUsage ctx"] num_or_ge3 [of "c_teamSize ctx"]
    num_or_lt2 [of "c_governanceAvg ctx"] num_or_lt2 [of "c_distributionAvg ctx"]
  show ?thesis by (intro conjI)
qed

lemma example_gaps_distinct: "distinct (map fst example_gaps)"
  by (simp add: example_gaps_def)

theorem classifyRisks_rules_witness:
  "distinct (map fst example_gaps)
   \<and> flags (classifyRisks example_gaps example_risk_context) =
       [''governance risk (gap < -15)'', ''Entropy risk (AI velocity > governance)'']
   \<and> byDimension (classifyRisks example_gaps example_risk_context) =
       [(''governance'', \<lparr>r_gap = Fin (- 20), r_risk = True\<rparr>),
        (''documentation'', \<lparr>r_gap = Fin 5, r_risk = False\<rparr>),
        (''adoption'', \<lparr>r_gap = NaN, r_risk = False\<rparr>)]
   \<and> hasRisk (classifyRisks example_gaps example_risk_context)"
proof -
  note t = classifyRisks_rules [OF example_gaps_distinct, of example_risk_context]
  have a: "flags (classifyRisks example_gaps example_risk_context) =
       [''governance risk (gap < -15)'', ''Entropy risk (AI velocity > governance)'']"
    using t [THEN conjunct1]
    by (simp add: example_gaps_def example_risk_context_def num_or_def)
  have b: "byDimension (classifyRisks example_gaps example_risk_context) =
       [(''governance'', \<lparr>r_gap = Fin (- 20), r_risk = True\<rparr>),
        (''documentation'', \<lparr>r_gap = Fin 5, r_risk = False\<rparr>),
        (''adoption'', \<lparr>r_gap = NaN, r_risk = False\<rparr>)]"
    using t [THEN conjunct2, THEN conjunct1] by (simp add: example_gaps_def)
  have c: "hasRisk (classifyRisks example_gaps example_risk_context)"
    using t a by simp
  from example_gaps_distinct a b c show ?thesis by (intro conjI)
qed

section \<open>Weights and the range of the pressure index\<close>

lemma resolveContextValue_valid:
  "valid_context cr \<Longrightarrow> \<exists>x. resolveContextValue cr ks = Fin x \<and> 1 \<le> x \<and> x \<le> 4"
proof (induction ks)
  case Nil
  then show ?case by simp
next
  case (Cons k ks)
  then show ?case by (cases "cr k") (auto simp: valid_context_def)
qed

lemma valid_example_context: "valid_context example_context"
  by (simp add: valid_context_def example_context_def)

text \<open>
  Claim C2. The five operational weights sum to 1. For every context map whose values lie
  in \<open>[1,4]\<close>, the index \<^verbatim>\<open>OPI\<close> lies in \<open>[0,100]\<close> and is the sum of the contributions of
  the five factors; each factor has a raw value \<open>x\<close> in \<open>[1,4]\<close>, the score
  \<open>(x-1)/3*100\<close> in \<open>[0,100]\<close>, its weight from the table, and contributes score times
  weight.
\<close>

theorem weights_sum_to_one_OPI_in_range:
  assumes "valid_context contextResponses"
  shows "foldl js_add (Fin 0) (map snd OPERATIONAL_WEIGHTS) = Fin 1
    \<and> map fst OPERATIONAL_WEIGHTS =
        [''teamSize'', ''productComplexity'', ''aiUsage'', ''releaseFrequency'', ''toolingFragmentation'']
    \<and> (\<exists>opi. op_OPI (computeOperationalPressure contextResponses) = Fin opi \<and> 0 \<le> opi \<and> opi \<le> 100)
    \<and> op_OPI (computeOperationalPressure contextResponses) =
        foldl js_add (Fin 0)
          (map (\<lambda>fe. b_contribution (snd fe)) (op_breakdown (computeOperationalPressure contextResponses)))
    \<and> map fst (op_breakdown (computeOperationalPressure contextResponses)) = map fst OPERATIONAL_WEIGHTS
    \<and> (\<forall>(f, e) \<in> set (op_breakdown (computeOperationalPressure contextResponses)).
          \<exists>x s w. b_raw e = Fin x \<and> 1 \<le> x \<and> x \<le> 4
            \<and> b_score100 e = Fin s \<and> s = (x - 1) / 3 * 100 \<and> 0 \<le> s \<and> s \<le> 100
            \<and> map_of OPERATIONAL_WEIGHTS f = Some (Fin w) \<and> b_weight e = Fin w
            \<and> b_contribution e = Fin (s * w))"
proof -
  have names: "map fst OPERATIONAL_WEIGHTS =
      [''teamSize'', ''productComplexity'', ''aiUsage'', ''releaseFrequency'', ''toolingFragmentation'']"
    by (simp add: OPERATIONAL_WEIGHTS_def)
  have keys: "map fst (op_breakdown (computeOperationalPressure contextResponses)) = map fst OPERATIONAL_WEIGHTS"
    by (simp add: computeOperationalPressure_unfold OPERATIONAL_WEIGHTS_def)
  have entries: "\<forall>(f, e) \<in> set (op_breakdown (computeOperationalPressure contextResponses)).
          \<exists>x s w. b_raw e = Fin x \<and> 1 \<le> x \<and> x \<le> 4
            \<and> b_score100 e = Fin s \<and> s = (x - 1) / 3 * 100 \<and> 0 \<le> s \<and> s \<le> 100
            \<and> map_of OPERATIONAL_WEIGHTS f = Some (Fin w) \<and> b_weight e = Fin w
            \<and> b_contribution e = Fin (s * w)"
  proof (clarify)
    fix f e
    assume fe: "(f, e) \<in> set (op_breakdown (computeOperationalPressure contextResponses))"
    from breakdown_entry [OF fe] obtain w where w: "map_of OPERATIONAL_WEIGHTS f = Some (Fin w)"
      "b_raw e = resolveContextValue contextResponses (aliases_of f)"
      "b_score100 e = Fin (score14 (b_raw e))" "b_weight e = Fin w"
      "b_contribution e = Fin (score14 (b_raw e) * w)" by blast
    from resolveContextValue_valid [OF assms, of "aliases_of f"] w(2)
    obtain x where x: "b_raw e = Fin x" "1 \<le> x" "x \<le> 4" by auto
    have s: "score14 (b_raw e) = (x - 1) / 3 * 100"
      using x by (simp add: score14_def)
    have "0 \<le> score14 (b_raw e) \<and> score14 (b_raw e) \<le> 100" by (rule score14_bounds)
    with w x s
    show "\<exists>x s w. b_raw e = Fin x \<and> 1 \<le> x \<and> x \<le> 4
            \<and> b_score100 e = Fin s \<and> s = (x - 1) / 3 * 100 \<and> 0 \<le> s \<and> s \<le> 100
            \<and> map_of OPERATIONAL_WEIGHTS f = Some (Fin w) \<and> b_weight e = Fin w
            \<and> b_contribution e = Fin (s * w)"
      by (intro exI [of _ x] exI [of _ "(x - 1) / 3 * 100"] exI [of _ w]) simp
  qed
  from weights_sum names OPI_range [of contextResponses] OPI_sum_of_contributions [of contextResponses]
    keys entries
  show ?thesis by blast
qed

theorem weights_sum_to_one_OPI_in_range_witness:
  "valid_context example_context
   \<and> op_OPI (computeOperationalPressure example_context) = Fin (110 / 3)
   \<and> map_of (op_breakdown (computeOperationalPressure example_context)) ''aiUsage''
       = Some \<lparr>b_raw = Fin 4, b_score100 = Fin 100, b_weight = Fin (2 / 10), b_contribution = Fin 20\<rparr>
   \<and> foldl js_add (Fin 0) (map snd OPERATIONAL_WEIGHTS) = Fin 1"
proof -
  note t = weights_sum_to_one_OPI_in_range [OF valid_example_context]
  have a: "op_OPI (computeOperationalPressure example_context) = Fin (110 / 3)"
    by (simp add: OPI_real aliases_of_def CONTEXT_KEY_ALIASES_def example_context_def score14_def)
  have b: "map_of (op_breakdown (computeOperationalPressure example_context)) ''aiUsage''
       = Some \<lparr>b_raw = Fin 4, b_score100 = Fin 100, b_weight = Fin (2 / 10), b_contribution = Fin 20\<rparr>"
    by (simp add: computeOperationalPressure_unfold OPERATIONAL_WEIGHTS_def aliases_of_def
      CONTEXT_KEY_ALIASES_def example_context_def normalize1to4To100_Fin)
  from t have c: "foldl js_add (Fin 0) (map snd OPERATIONAL_WEIGHTS) = Fin 1" by (rule conjunct1)
  from valid_example_context a b c show ?thesis by blast
qed

section \<open>Empty response maps\<close>



section \<open>Normalization is total, clamping and monotone\<close>



section \<open>Strengths and weaknesses\<close>

text \<open>
  Claim C5 says that two dimensions of equal score come in their insertion order in both
  lists. In the weaknesses they come in the opposite order: \<^verbatim>\<open>alpha\<close> was inserted
  before \<^verbatim>\<open>beta\<close>, and the weaknesses are \<^verbatim>\<open>Beta\<close>, \<^verbatim>\<open>Alpha\<close>.
\<close>

theorem weaknesses_tie_not_in_insertion_order:
  "map fst (dimensionScores tie_report) = [''alpha'', ''beta'']
   \<and> map (\<lambda>e. ds_score100 (snd e)) (dimensionScores tie_report) = [Fin 50, Fin 50]
   \<and> map rd_dimension (generateStrengths tie_report) = [''Alpha'', ''Beta'']
   \<and> map rd_dimension (generateWeaknesses tie_report) = [''Beta'', ''Alpha'']
   \<and> \<not> subseq (map rd_dimension (generateWeaknesses tie_report))
            (map toTitle (map fst (dimensionScores tie_report)))"
  by code_simp

text \<open>
  Claim C5, amended. \<^verbatim>\<open>generateStrengths\<close> returns the first two and
  \<^verbatim>\<open>generateWeaknesses\<close> the last two, last first, of one sequence: the dimensions in
  descending order of \<^verbatim>\<open>score100\<close>, a permutation of the entries in which dimensions of
  equal score keep the order of the entries. So among the dimensions of one score the
  strengths follow the order of the entries from its start, the weaknesses the reverse
  order from its end. With the scores A:90, B:50, C:10 the strengths are A, B and the
  weaknesses C, B.
\<close>

theorem strengths_weaknesses_order:
  "generateStrengths r = map titled (take 2 (sortedDimensions (dimensionScores r)))
   \<and> generateWeaknesses r = map titled (take 2 (rev (sortedDimensions (dimensionScores r))))
   \<and> mset (sortedDimensions scores) = mset (map ranked_entry scores)
   \<and> sorted_wrt score_ge (sortedDimensions scores)
   \<and> filter (same_score k) (sortedDimensions scores) = filter (same_score k) (map ranked_entry scores)
   \<and> prefix (filter (same_score k) (take 2 (sortedDimensions scores)))
        (filter (same_score k) (map ranked_entry scores))
   \<and> prefix (filter (same_score k) (take 2 (rev (sortedDimensions scores))))
        (rev (filter (same_score k) (map ranked_entry scores)))
   \<and> map rd_dimension (generateStrengths abc_report) = [''A'', ''B'']
   \<and> map rd_dimension (generateWeaknesses abc_report) = [''C'', ''B'']"
proof -
  let ?S = "sortedDimensions scores"
  let ?E = "map ranked_entry scores"
  have nn: "\<forall>x \<in> set ?E. rd_score100 x \<noteq> NaN"
    by (auto simp: ranked_entry_not_NaN)
  have c1: "generateStrengths r = map titled (take 2 (sortedDimensions (dimensionScores r)))"
    by (simp add: generateStrengths_def)
  have c2: "generateWeaknesses r = map titled (take 2 (rev (sortedDimensions (dimensionScores r))))"
    by (simp add: generateWeaknesses_def)
  have c3: "mset ?S = mset ?E"
    by (simp only: sortedDimensions_def mset_js_sort)
  have c4: "sorted_wrt score_ge ?S"
    unfolding sortedDimensions_def using nn by (rule sorted_js_sort)
  have c5: "filter (same_score k) ?S = filter (same_score k) ?E"
    unfolding sortedDimensions_def using nn by (rule filter_js_sort)
  have c6: "prefix (filter (same_score k) (take 2 ?S)) (filter (same_score k) ?E)"
    using prefix_filter_take [of "same_score k" 2 ?S] by (simp only: c5)
  have "prefix (filter (same_score k) (take 2 (rev ?S))) (filter (same_score k) (rev ?S))"
    by (rule prefix_filter_take)
  then have c7: "prefix (filter (same_score k) (take 2 (rev ?S))) (rev (filter (same_score k) ?E))"
    by (simp only: rev_filter [symmetric] c5)
  have c8: "map rd_dimension (generateStrengths abc_report) = [''A'', ''B'']"
    by code_simp
  have c9: "map rd_dimension (generateWeaknesses abc_report) = [''C'', ''B'']"
    by code_simp
  from c1 c2 c3 c4 c5 c6 c7 c8 c9 show ?thesis by (intro conjI)
qed

theorem strengths_weaknesses_order_witness:
  "generateStrengths tie_report =
     [\<lparr>rd_dimension = ''Alpha'', rd_avg = Fin (3 / 2), rd_score100 = Fin 50\<rparr>,
      \<lparr>rd_dimension = ''Beta'', rd_avg = Fin (3 / 2), rd_score100 = Fin 50\<rparr>]
   \<and> generateWeaknesses tie_report =
     [\<lparr>rd_dimension = ''Beta'', rd_avg = Fin (3 / 2), rd_score100 = Fin 50\<rparr>,
      \<lparr>rd_dimension = ''Alpha'', rd_avg = Fin (3 / 2), rd_score100 = Fin 50\<rparr>]
   \<and> filter (same_score (Fin 50)) (sortedDimensions (dimensionScores tie_report)) =
       map ranked_entry (dimensionScores tie_report)"
proof -
  note t = strengths_weaknesses_order [of tie_report "dimensionScores tie_report" "Fin 50"]
  have a: "generateStrengths tie_report =
     [\<lparr>rd_dimension = ''Alpha'', rd_avg = Fin (3 / 2), rd_score100 = Fin 50\<rparr>,
      \<lparr>rd_dimension = ''Beta'', rd_avg = Fin (3 / 2), rd_score100 = Fin 50\<rparr>]"
    by code_simp
  have b: "generateWeaknesses tie_report =
     [\<lparr>rd_dimension = ''Beta'', rd_avg = Fin (3 / 2), rd_score100 = Fin 50\<rparr>,
      \<lparr>rd_dimension = ''Alpha'', rd_avg = Fin (3 / 2), rd_score100 = Fin 50\<rparr>]"
    by code_simp
  have "filter (same_score (Fin 50)) (map ranked_entry (dimensionScores tie_report)) =
       map ranked_entry (dimensionScores tie_report)"
    by code_simp
  with t have c: "filter (same_score (Fin 50)) (sortedDimensions (dimensionScores tie_report)) =
       map ranked_entry (dimensionScores tie_report)"
    by simp
  from a b c show ?thesis by (intro conjI)
qed

section \<open>The entropy flag in the computed report\<close>

text \<open>
  Claim C6 says that with an AI usage of 4 and a governance average below 2 the list of
  flags is exactly the entropy flag. With both governance answers 0, the example that the
  claim itself gives, the list has two flags: the pressure index is 20, the governance
  gap is \<open>-20\<close>, and the gap rule comes first.
\<close>

theorem entropy_flag_not_alone:
  "resolveContextValue ai_usage_four (aliases_of ''aiUsage'') = Fin 4
   \<and> map_of (computeDimensionScores governance_zero governance_questions) ''governance'' =
       Some \<lparr>ds_avg = Fin 0, ds_score100 = Fin 0, ds_answered = 2, ds_total = 2\<rparr>
   \<and> flags (risks (computeReportModel governance_zero ai_usage_four governance_questions)) =
       [''governance risk (gap < -15)'', ''Entropy risk (AI velocity > governance)'']
   \<and> flags (risks (computeReportModel governance_zero ai_usage_four governance_questions)) \<noteq>
       [''Entropy risk (AI velocity > governance)'']"
  by code_simp

text \<open>
  Claim C6, amended. For every response set with an AI usage of 4 and a governance
  dimension whose average is below 2, the list of flags contains the entropy flag, once:
  the list is the gap flags of the dimensions whose gap is below \<open>-15\<close>, then the entropy
  flag, then the drift flag if its rule applies. When the governance average is 0 the
  governance gap flag is one of them, since the pressure index is at least 20.
\<close>

theorem entropy_flag_present:
  assumes ai: "resolveContextValue cr (aliases_of ''aiUsage'') = Fin 4"
    and gov: "map_of (computeDimensionScores rs qs) ''governance'' = Some s"
    and avg: "js_lt (ds_avg s) (Fin 2)"
  shows "''Entropy risk (AI velocity > governance)'' \<in> set (flags (risks (computeReportModel rs cr qs)))
    \<and> count_list (flags (risks (computeReportModel rs cr qs))) ''Entropy risk (AI velocity > governance)'' = 1
    \<and> flags (risks (computeReportModel rs cr qs)) =
        map (\<lambda>dg. fst dg @ '' risk (gap < -15)'')
          (filter (\<lambda>dg. js_lt (snd dg) (Fin (- 15))) (dimensionGaps (computeReportModel rs cr qs)))
        @ [''Entropy risk (AI velocity > governance)'']
        @ (if js_ge (resolveContextValue cr (aliases_of ''teamSize'')) (Fin 3)
              \<and> js_lt (num_or (map_option ds_avg (map_of (computeDimensionScores rs qs) ''distribution'')) (Fin 0)) (Fin 2)
           then [''Drift risk (scale > release discipline)''] else [])
    \<and> (ds_avg s = Fin 0 \<longrightarrow>
          ''governance risk (gap < -15)'' \<in> set (flags (risks (computeReportModel rs cr qs))))"
proof -
  let ?r = "computeReportModel rs cr qs"
  let ?ds = "computeDimensionScores rs qs"
  let ?opi = "op_OPI (computeOperationalPressure cr)"
  let ?gaps = "computeDimensionGaps ?ds ?opi"
  let ?D = "js_ge (resolveContextValue cr (aliases_of ''teamSize'')) (Fin 3)
              \<and> js_lt (num_or (map_option ds_avg (map_of ?ds ''distribution'')) (Fin 0)) (Fin 2)"
  from gov have mem: "(''governance'', s) \<in> set ?ds" by (rule map_of_SomeD)
  then have ok: "score_ok s" by (rule computeDimensionScores_ok)
  have gavg: "num_or (map_option ds_avg (map_of ?ds ''governance'')) (Fin 0) = ds_avg s"
    using num_or_score_avg(1) [OF ok] by (simp add: gov)
  have E1: "js_ge (num_or (Some (resolveContextValue cr (aliases_of ''aiUsage''))) (Fin 0)) (Fin 3)"
    by (simp add: ai num_or_Some_ge3)
  have E2: "js_lt (num_or (Some (num_or (map_option ds_avg (map_of ?ds ''governance'')) (Fin 0))) (Fin 0)) (Fin 2)"
    unfolding gavg num_or_score_avg(1) [OF ok] by (rule avg)
  note E = conjI [OF E1 E2]
  have fl: "flags (risks ?r) = gap_flags ?gaps @ [entropy_flag] @ (if ?D then [drift_flag] else [])"
    using E by (simp add: report_flags num_or_idem num_or_Some_ge3)
  have c1: "''Entropy risk (AI velocity > governance)'' \<in> set (flags (risks ?r))"
    unfolding fl by (simp add: entropy_flag_def)
  have "count_list (gap_flags ?gaps) entropy_flag = 0"
    using entropy_notin_gap_flags [of ?gaps] by (simp add: count_list_0_iff)
  then have c2: "count_list (flags (risks ?r)) ''Entropy risk (AI velocity > governance)'' = 1"
    unfolding fl using entropy_not_drift by (simp add: entropy_flag_def)
  have c3: "flags (risks ?r) =
        map (\<lambda>dg. fst dg @ '' risk (gap < -15)'')
          (filter (\<lambda>dg. js_lt (snd dg) (Fin (- 15))) (dimensionGaps ?r))
        @ [''Entropy risk (AI velocity > governance)'']
        @ (if ?D then [''Drift risk (scale > release discipline)''] else [])"
    unfolding fl report_dimensionGaps gap_flags_def gap_flag_def entropy_flag_def drift_flag_def ..
  have c4: "ds_avg s = Fin 0 \<longrightarrow> ''governance risk (gap < -15)'' \<in> set (flags (risks ?r))"
  proof
    assume z: "ds_avg s = Fin 0"
    with ok have sc: "ds_score100 s = Fin 0" by (simp add: score_ok_def)
    from OPI_at_least_ai [OF ai] obtain opi where opi: "?opi = Fin opi" "20 \<le> opi" by blast
    have "?gaps = map (\<lambda>(d, s). (d, js_sub (num_or (Some (ds_score100 s)) (Fin 0)) (num_or (Some ?opi) (Fin 0)))) ?ds"
      by (rule computeDimensionGaps_map) (rule computeDimensionScores_distinct)
    then have "(''governance'', js_sub (num_or (Some (ds_score100 s)) (Fin 0)) (num_or (Some ?opi) (Fin 0))) \<in> set ?gaps"
      using mem by force
    moreover have "js_sub (num_or (Some (ds_score100 s)) (Fin 0)) (num_or (Some ?opi) (Fin 0)) = Fin (- opi)"
      using opi by (simp add: sc num_or_def js_sub_def)
    moreover have "js_lt (Fin (- opi)) (Fin (- 15))" using opi(2) by simp
    ultimately have "gap_flag ''governance'' \<in> set (gap_flags ?gaps)"
      using gap_flag_in_gap_flags by metis
    then show "''governance risk (gap < -15)'' \<in> set (flags (risks ?r))"
      unfolding fl by (simp add: gap_flag_def)
  qed
  from c1 c2 c3 c4 show ?thesis by (intro conjI)
qed

lemma governance_ones_scores:
  "map_of (computeDimensionScores governance_ones governance_questions) ''governance'' =
     Some \<lparr>ds_avg = Fin (3 / 2), ds_score100 = Fin 50, ds_answered = 2, ds_total = 2\<rparr>"
  by code_simp

lemma ai_usage_four_raw: "resolveContextValue ai_usage_four (aliases_of ''aiUsage'') = Fin 4"
  by code_simp

theorem entropy_flag_present_witness:
  "resolveContextValue ai_usage_four (aliases_of ''aiUsage'') = Fin 4
   \<and> map_of (computeDimensionScores governance_ones governance_questions) ''governance'' =
       Some \<lparr>ds_avg = Fin (3 / 2), ds_score100 = Fin 50, ds_answered = 2, ds_total = 2\<rparr>
   \<and> js_lt (Fin (3 / 2)) (Fin 2)
   \<and> ''Entropy risk (AI velocity > governance)''
       \<in> set (flags (risks (computeReportModel governance_ones ai_usage_four governance_questions)))
   \<and> flags (risks (computeReportModel governance_ones ai_usage_four governance_questions)) =
       [''Entropy risk (AI velocity > governance)'']"
proof -
  have lt: "js_lt (ds_avg \<lparr>ds_avg = Fin (3 / 2), ds_score100 = Fin 50, ds_answered = 2, ds_total = 2\<rparr>) (Fin 2)"
    by simp
  note t = entropy_flag_present [OF ai_usage_four_raw governance_ones_scores lt]
  from t have a: "''Entropy risk (AI velocity > governance)''
       \<in> set (flags (risks (computeReportModel governance_ones ai_usage_four governance_questions)))"
    by (rule conjunct1)
  have b: "flags (risks (computeReportModel governance_ones ai_usage_four governance_questions)) =
       [''Entropy risk (AI velocity > governance)'']"
    by code_simp
  have c: "js_lt (Fin (3 / 2)) (Fin 2)" by simp
  from ai_usage_four_raw governance_ones_scores c a b show ?thesis by (intro conjI)
qed

section \<open>The summary sentence\<close>

lemma generateSummary_parts:
  "generateSummary r =
     [Text ''Current maturity signals (SSI '', Fixed1 (summary_SSI r), Text '') '',
      Text (relationship (summary_AG r)), Text '' (OPI '', Fixed1 (summary_OPI r),
      Text '', AG '', Fixed1 (summary_AG r),
      Text ''). With team size level '', Plain (summary_team r),
      Text '' and AI usage level '', Plain (summary_ai r),
      Text '', this tends to indicate where practice consistency may need reinforcement as delivery pace changes.'']"
  unfolding generateSummary_def Let_def summary_AG_def summary_SSI_def summary_OPI_def
    summary_team_def summary_ai_def ..

lemma generateSummary_render:
  assumes "toFixed1 (summary_SSI r) = Some a" and "toFixed1 (summary_OPI r) = Some b"
    and "toFixed1 (summary_AG r) = Some c"
    and "number_to_string (summary_team r) = Some t" and "number_to_string (summary_ai r) = Some u"
  shows "render (generateSummary r) =
     Some (''Current maturity signals (SSI '' @ a @ '') '' @ relationship (summary_AG r)
           @ '' (OPI '' @ b @ '', AG '' @ c @ ''). With team size level '' @ t
           @ '' and AI usage level '' @ u
           @ '', this tends to indicate where practice consistency may need reinforcement as delivery pace changes.'')"
  unfolding generateSummary_parts by (simp add: assms)

lemma number_to_string_int:
  assumes "\<bar>i\<bar> < 10 ^ 21"
  shows "number_to_string (Fin (of_int i)) = Some ((if i < 0 then ''-'' else []) @ digits (nat \<bar>i\<bar>))"
proof -
  have "\<bar>(of_int i :: real)\<bar> < 10 ^ 21"
  proof -
    have "\<bar>(of_int i :: real)\<bar> = of_int \<bar>i\<bar>" by simp
    also have "\<dots> < of_int (10 ^ 21)" using assms by (simp only: of_int_less_iff)
    finally show ?thesis by simp
  qed
  moreover have "\<lfloor>\<bar>(of_int i :: real)\<bar>\<rfloor> = \<bar>i\<bar>"
    by (metis floor_of_int of_int_abs)
  ultimately show ?thesis by (simp add: number_to_string_def)
qed

lemma resolveContextValue_level:
  "level_context cr \<Longrightarrow> resolveContextValue cr ks \<in> set [Fin 1, Fin 2, Fin 3, Fin 4]"
proof (induction ks)
  case Nil
  then show ?case by simp
next
  case (Cons k ks)
  then show ?case by (cases "cr k") (auto simp: level_context_def)
qed

lemma level_to_string:
  assumes "v \<in> set [Fin 1, Fin 2, Fin 3, Fin 4]"
  shows "\<exists>s. number_to_string (num_or (Some v) (Fin 1)) = Some s"
proof -
  have "number_to_string (num_or (Some (Fin 1)) (Fin 1)) = Some ''1''" by code_simp
  moreover have "number_to_string (num_or (Some (Fin 2)) (Fin 1)) = Some ''2''" by code_simp
  moreover have "number_to_string (num_or (Some (Fin 3)) (Fin 1)) = Some ''3''" by code_simp
  moreover have "number_to_string (num_or (Some (Fin 4)) (Fin 1)) = Some ''4''" by code_simp
  ultimately show ?thesis using assms by auto
qed

lemma toFixed1_defined: "\<bar>x\<bar> \<le> 100 \<Longrightarrow> \<exists>s. toFixed1 (Fin x) = Some s"
proof -
  assume "\<bar>x\<bar> \<le> 100"
  then have "\<bar>x\<bar> < 10 ^ 21" by simp
  from toFixed1_rounds [OF this] show ?thesis by blast
qed

lemma report_context_raw:
  "map_of (context_raw (computeReportModel rs cr qs)) ''teamSize'' =
     Some (resolveContextValue cr (aliases_of ''teamSize''))
   \<and> map_of (context_raw (computeReportModel rs cr qs)) ''aiUsage'' =
     Some (resolveContextValue cr (aliases_of ''aiUsage''))"
  by (simp add: computeReportModel_def Let_def)

lemma summary_renders:
  assumes "level_context cr"
  shows "\<exists>s. render (generateSummary (computeReportModel rs cr qs)) = Some s"
proof -
  let ?r = "computeReportModel rs cr qs"
  from report_numbers [of rs cr qs] obtain ssi opi where
    n: "SSI ?r = Some (Fin ssi)" "0 \<le> ssi" "ssi \<le> 100"
       "map_option op_OPI (operationalPressure ?r) = Some (Fin opi)" "0 \<le> opi" "opi \<le> 100"
       "adequacyGap ?r = Some (Fin (ssi - opi))" by blast
  have s1: "summary_SSI ?r = Fin ssi" by (simp add: summary_SSI_def n num_or_def)
  have s2: "summary_OPI ?r = Fin opi" by (simp add: summary_OPI_def n(4) num_or_def)
  have s3: "summary_AG ?r = Fin (ssi - opi)" by (simp add: summary_AG_def n)
  obtain a where a: "toFixed1 (summary_SSI ?r) = Some a"
    unfolding s1 using toFixed1_defined [of ssi] n by auto
  obtain b where b: "toFixed1 (summary_OPI ?r) = Some b"
    unfolding s2 using toFixed1_defined [of opi] n by auto
  have "\<bar>ssi - opi\<bar> \<le> 100" using n(2,3,5,6) by linarith
  then obtain c where c: "toFixed1 (summary_AG ?r) = Some c"
    unfolding s3 using toFixed1_defined [of "ssi - opi"] by blast
  obtain t where t: "number_to_string (summary_team ?r) = Some t"
    unfolding summary_team_def
    using level_to_string [OF resolveContextValue_level [OF assms, of "aliases_of ''teamSize''"]]
    by (auto simp: report_context_raw)
  obtain u where u: "number_to_string (summary_ai ?r) = Some u"
    unfolding summary_ai_def
    using level_to_string [OF resolveContextValue_level [OF assms, of "aliases_of ''aiUsage''"]]
    by (auto simp: report_context_raw)
  from generateSummary_render [OF a b c t u] show ?thesis by blast
qed

text \<open>
  Claim C7. For every report model the summary names one of four relations of the
  adequacy gap to the operational pressure: a gap of at least 10 "tends to sit above", a
  gap in \<open>[0,10)\<close> is "slightly above", a gap in \<open>[-10,0)\<close> is "slightly below", a gap
  below \<open>-10\<close> "may indicate a notable gap"; every gap that is a number is in exactly
  one band. The sentence is the fixed template with \<^verbatim>\<open>SSI\<close>, \<^verbatim>\<open>OPI\<close> and the gap
  formatted by \<^verbatim>\<open>toFixed(1)\<close>, which rounds to the nearest tenth, and with the raw team
  size and AI usage levels of the context (1 when absent). For a report computed from a
  context of option scores the whole sentence is given by the model.
\<close>

theorem summary_bands_and_template:
  "(js_ge (summary_AG r) (Fin 10) \<longrightarrow>
      relationship (summary_AG r) = ''tends to sit above current operational pressure'')
   \<and> (js_ge (summary_AG r) (Fin 0) \<and> js_lt (summary_AG r) (Fin 10) \<longrightarrow>
      relationship (summary_AG r) = ''is slightly above current operational pressure'')
   \<and> (js_ge (summary_AG r) (Fin (- 10)) \<and> js_lt (summary_AG r) (Fin 0) \<longrightarrow>
      relationship (summary_AG r) = ''is slightly below current operational pressure'')
   \<and> (js_lt (summary_AG r) (Fin (- 10)) \<longrightarrow>
      relationship (summary_AG r) = ''may indicate a notable gap to current operational pressure'')
   \<and> (summary_AG r \<noteq> NaN \<longrightarrow>
        (js_ge (summary_AG r) (Fin 10) \<or> js_ge (summary_AG r) (Fin 0) \<and> js_lt (summary_AG r) (Fin 10)
         \<or> js_ge (summary_AG r) (Fin (- 10)) \<and> js_lt (summary_AG r) (Fin 0)
         \<or> js_lt (summary_AG r) (Fin (- 10))))
   \<and> summary_SSI r = num_or (SSI r) (Fin 0)
   \<and> summary_OPI r = num_or (map_option op_OPI (operationalPressure r)) (Fin 0)
   \<and> summary_AG r = (case adequacyGap r of Some g \<Rightarrow> g | None \<Rightarrow> js_sub (summary_SSI r) (summary_OPI r))
   \<and> summary_team r = num_or (map_of (context_raw r) ''teamSize'') (Fin 1)
   \<and> summary_ai r = num_or (map_of (context_raw r) ''aiUsage'') (Fin 1)
   \<and> generateSummary r =
       [Text ''Current maturity signals (SSI '', Fixed1 (summary_SSI r), Text '') '',
        Text (relationship (summary_AG r)), Text '' (OPI '', Fixed1 (summary_OPI r),
        Text '', AG '', Fixed1 (summary_AG r),
        Text ''). With team size level '', Plain (summary_team r),
        Text '' and AI usage level '', Plain (summary_ai r),
        Text '', this tends to indicate where practice consistency may need reinforcement as delivery pace changes.'']
   \<and> (toFixed1 (summary_SSI r) = Some a \<and> toFixed1 (summary_OPI r) = Some b
        \<and> toFixed1 (summary_AG r) = Some c
        \<and> number_to_string (summary_team r) = Some t \<and> number_to_string (summary_ai r) = Some u \<longrightarrow>
      render (generateSummary r) =
        Some (''Current maturity signals (SSI '' @ a @ '') '' @ relationship (summary_AG r)
              @ '' (OPI '' @ b @ '', AG '' @ c @ ''). With team size level '' @ t
              @ '' and AI usage level '' @ u
              @ '', this tends to indicate where practice consistency may need reinforcement as delivery pace changes.''))
   \<and> (\<bar>x\<bar> < 10 ^ 21 \<longrightarrow>
        (\<exists>n. toFixed1 (Fin x) =
               Some ((if x < 0 then ''-'' else []) @ digits (n div 10) @ ''.'' @ [digit_char (n mod 10)])
             \<and> \<bar>real n / 10 - \<bar>x\<bar>\<bar> \<le> 1 / 20))
   \<and> (\<bar>i\<bar> < 10 ^ 21 \<longrightarrow>
        number_to_string (Fin (of_int i)) = Some ((if i < 0 then ''-'' else []) @ digits (nat \<bar>i\<bar>)))
   \<and> (level_context cr \<longrightarrow>
        (\<exists>s. render (generateSummary (computeReportModel rs cr qs)) = Some s))"
proof -
  note b = relationship_bands [of "summary_AG r"]
  have one: "summary_AG r \<noteq> NaN \<longrightarrow>
        (js_ge (summary_AG r) (Fin 10) \<or> js_ge (summary_AG r) (Fin 0) \<and> js_lt (summary_AG r) (Fin 10)
         \<or> js_ge (summary_AG r) (Fin (- 10)) \<and> js_lt (summary_AG r) (Fin 0)
         \<or> js_lt (summary_AG r) (Fin (- 10)))"
    by (cases "summary_AG r") auto
  have rend: "toFixed1 (summary_SSI r) = Some a \<and> toFixed1 (summary_OPI r) = Some b
        \<and> toFixed1 (summary_AG r) = Some c
        \<and> number_to_string (summary_team r) = Some t \<and> number_to_string (summary_ai r) = Some u \<longrightarrow>
      render (generateSummary r) =
        Some (''Current maturity signals (SSI '' @ a @ '') '' @ relationship (summary_AG r)
              @ '' (OPI '' @ b @ '', AG '' @ c @ ''). With team size level '' @ t
              @ '' and AI usage level '' @ u
              @ '', this tends to indicate where practice consistency may need reinforcement as delivery pace changes.'')"
    using generateSummary_render [of r a b c t u] by blast
  have fx: "\<bar>x\<bar> < 10 ^ 21 \<longrightarrow>
        (\<exists>n. toFixed1 (Fin x) =
               Some ((if x < 0 then ''-'' else []) @ digits (n div 10) @ ''.'' @ [digit_char (n mod 10)])
             \<and> \<bar>real n / 10 - \<bar>x\<bar>\<bar> \<le> 1 / 20)"
    using toFixed1_rounds [of x] by blast
  have ns: "\<bar>i\<bar> < 10 ^ 21 \<longrightarrow>
        number_to_string (Fin (of_int i)) = Some ((if i < 0 then ''-'' else []) @ digits (nat \<bar>i\<bar>))"
    using number_to_string_int [of i] by blast
  have lv: "level_context cr \<longrightarrow>
        (\<exists>s. render (generateSummary (computeReportModel rs cr qs)) = Some s)"
    using summary_renders [of cr rs qs] by blast
  from b one summary_SSI_def [of r] summary_OPI_def [of r] summary_AG_def [of r]
    summary_team_def [of r] summary_ai_def [of r] generateSummary_parts [of r] rend fx ns lv
  show ?thesis by (intro conjI) (elim conjE, assumption)+
qed

theorem summary_bands_and_template_witness:
  "summary_AG example_report = Fin (- 20)
   \<and> js_lt (summary_AG example_report) (Fin (- 10))
   \<and> relationship (summary_AG example_report) = ''may indicate a notable gap to current operational pressure''
   \<and> relationship (summary_AG (gap_report (Fin 15))) = ''tends to sit above current operational pressure''
   \<and> relationship (summary_AG (gap_report (Fin 5))) = ''is slightly above current operational pressure''
   \<and> relationship (summary_AG (gap_report (Fin (- 5)))) = ''is slightly below current operational pressure''
   \<and> render (generateSummary example_report) =
       Some ''Current maturity signals (SSI 0.0) may indicate a notable gap to current operational pressure (OPI 20.0, AG -20.0). With team size level 1 and AI usage level 4, this tends to indicate where practice consistency may need reinforcement as delivery pace changes.''
   \<and> level_context ai_usage_four
   \<and> (\<exists>s. render (generateSummary (computeReportModel governance_ones ai_usage_four governance_questions)) = Some s)
   \<and> toFixed1 (Fin (100 / 3)) = Some ''33.3'' \<and> toFixed1 (Fin (- 1 / 4)) = Some ''-0.3''
   \<and> toFixed1 (Fin 100) = Some ''100.0''"
proof -
  note t = summary_bands_and_template [of example_report "''0.0''" "''20.0''" "''-20.0''" "''1''" "''4''"
      0 0 ai_usage_four governance_ones governance_questions]
  have a: "summary_AG example_report = Fin (- 20)" by code_simp
  have b: "js_lt (summary_AG example_report) (Fin (- 10))" by (simp add: a)
  from t b have c: "relationship (summary_AG example_report) =
      ''may indicate a notable gap to current operational pressure''" by blast
  have ag: "summary_AG (gap_report g) = g" for g
    by (simp add: summary_AG_def gap_report_def report_of_scores_def)
  have "js_ge (summary_AG (gap_report (Fin 15))) (Fin 10)" by (simp add: ag)
  with summary_bands_and_template [of "gap_report (Fin 15)"]
  have c1: "relationship (summary_AG (gap_report (Fin 15))) = ''tends to sit above current operational pressure''"
    by blast
  have "js_ge (summary_AG (gap_report (Fin 5))) (Fin 0) \<and> js_lt (summary_AG (gap_report (Fin 5))) (Fin 10)"
    by (simp add: ag)
  with summary_bands_and_template [of "gap_report (Fin 5)"]
  have c2: "relationship (summary_AG (gap_report (Fin 5))) = ''is slightly above current operational pressure''"
    by blast
  have "js_ge (summary_AG (gap_report (Fin (- 5)))) (Fin (- 10)) \<and> js_lt (summary_AG (gap_report (Fin (- 5)))) (Fin 0)"
    by (simp add: ag)
  with summary_bands_and_template [of "gap_report (Fin (- 5))"]
  have c3: "relationship (summary_AG (gap_report (Fin (- 5)))) = ''is slightly below current operational pressure''"
    by blast
  have h: "toFixed1 (summary_SSI example_report) = Some ''0.0'' \<and> toFixed1 (summary_OPI example_report) = Some ''20.0''
        \<and> toFixed1 (summary_AG example_report) = Some ''-20.0''
        \<and> number_to_string (summary_team example_report) = Some ''1''
        \<and> number_to_string (summary_ai example_report) = Some ''4''"
    by code_simp
  from t h have "render (generateSummary example_report) =
        Some (''Current maturity signals (SSI '' @ ''0.0'' @ '') '' @ relationship (summary_AG example_report)
              @ '' (OPI '' @ ''20.0'' @ '', AG '' @ ''-20.0'' @ ''). With team size level '' @ ''1''
              @ '' and AI usage level '' @ ''4''
              @ '', this tends to indicate where practice consistency may need reinforcement as delivery pace changes.'')"
    by blast
  then have d: "render (generateSummary example_report) =
       Some ''Current maturity signals (SSI 0.0) may indicate a notable gap to current operational pressure (OPI 20.0, AG -20.0). With team size level 1 and AI usage level 4, this tends to indicate where practice consistency may need reinforcement as delivery pace changes.''"
    by (simp add: c)
  have lv: "level_context ai_usage_four" by (simp add: level_context_def ai_usage_four_def)
  with t have lr: "\<exists>s. render (generateSummary (computeReportModel governance_ones ai_usage_four governance_questions)) = Some s"
    by blast
  have e: "toFixed1 (Fin (100 / 3)) = Some ''33.3''" by code_simp
  have f: "toFixed1 (Fin (- 1 / 4)) = Some ''-0.3''" by code_simp
  have g: "toFixed1 (Fin 100) = Some ''100.0''" by code_simp
  from a b c c1 c2 c3 d lv lr e f g show ?thesis by (intro conjI)
qed

section \<open>The guidance tips\<close>

text \<open>
  Claim C8. For every report model, \<^verbatim>\<open>generateGuidance\<close> returns a list without
  duplicates: first the two tips of the entropy flag, if the flag is among the risk flags,
  then the two tips of the drift flag, if that flag is, then the tips of the known
  dimension names (governance, distribution, documentation, components, foundations,
  adoption, in this order) that are the lower-cased name of one of the two weakest
  dimensions. If no rule adds a tip, the result is the one fallback tip; the result is
  never empty.
\<close>

theorem guidance_tips_order:
  "generateGuidance r =
     (let weakestKeys = map (\<lambda>d. toLowerCase (rd_dimension d))
                          (take 2 (rev (sortedDimensions (dimensionScores r))));
          tips = (if ''Entropy risk (AI velocity > governance)'' \<in> set (flags (risks r))
                  then entropy_tips else [])
               @ (if ''Drift risk (scale > release discipline)'' \<in> set (flags (risks r))
                  then drift_tips else [])
               @ map snd (filter (\<lambda>nt. fst nt \<in> set weakestKeys) dimension_tips)
      in if tips = [] then [fallback_tip] else tips)
   \<and> distinct (generateGuidance r)
   \<and> generateGuidance r \<noteq> []
   \<and> map fst dimension_tips =
       [''governance'', ''distribution'', ''documentation'', ''components'', ''foundations'', ''adoption'']
   \<and> distinct (entropy_tips @ drift_tips @ map snd dimension_tips @ [fallback_tip])
   \<and> length entropy_tips = 2 \<and> length drift_tips = 2"
proof -
  let ?weak = "map (\<lambda>d. toLowerCase (rd_dimension d)) (take 2 (rev (sortedDimensions (dimensionScores r))))"
  let ?a = "if entropy_flag \<in> set (flags (risks r)) then entropy_tips else []"
  let ?b = "if drift_flag \<in> set (flags (risks r)) then drift_tips else []"
  let ?c = "map snd (filter (\<lambda>nt. fst nt \<in> set ?weak) dimension_tips)"
  let ?tips = "?a @ ?b @ ?c"
  have d3: "distinct ?tips" by (rule distinct_tip_parts) simp_all
  have d4: "distinct (if ?tips = [] then [fallback_tip] else ?tips)"
  proof (cases "?tips = []")
    case True
    then show ?thesis by (simp only: if_True) simp
  next
    case False
    then show ?thesis using d3 by (simp only: if_False)
  qed
  have g: "generateGuidance r = (if ?tips = [] then [fallback_tip] else ?tips)"
  proof -
    have "generateGuidance r = unique_in_order (if length ?tips = 0 then ?tips @ [fallback_tip] else ?tips)"
      unfolding generateGuidance_def Let_def weakest_keys foldl_push_if append_assoc ..
    also have "(if length ?tips = 0 then ?tips @ [fallback_tip] else ?tips)
        = (if ?tips = [] then [fallback_tip] else ?tips)"
      by (simp only: length_0_conv split: if_split) simp
    also have "unique_in_order \<dots> = (if ?tips = [] then [fallback_tip] else ?tips)"
      using d4 by (rule unique_in_order_distinct)
    finally show ?thesis .
  qed
  have c1: "generateGuidance r =
     (let weakestKeys = ?weak;
          tips = (if ''Entropy risk (AI velocity > governance)'' \<in> set (flags (risks r))
                  then entropy_tips else [])
               @ (if ''Drift risk (scale > release discipline)'' \<in> set (flags (risks r))
                  then drift_tips else [])
               @ map snd (filter (\<lambda>nt. fst nt \<in> set weakestKeys) dimension_tips)
      in if tips = [] then [fallback_tip] else tips)"
    unfolding g Let_def entropy_flag_def drift_flag_def ..
  have c2: "distinct (generateGuidance r)" unfolding g by (rule d4)
  have c3: "generateGuidance r \<noteq> []" unfolding g by simp
  have c4: "map fst dimension_tips =
       [''governance'', ''distribution'', ''documentation'', ''components'', ''foundations'', ''adoption'']"
    by (simp add: dimension_tips_def)
  have c5: "distinct (entropy_tips @ drift_tips @ map snd dimension_tips @ [fallback_tip])"
    using distinct_all_tips by (simp only: all_tips_def)
  have c6: "length entropy_tips = 2" by (simp add: entropy_tips_def)
  have c7: "length drift_tips = 2" by (simp add: drift_tips_def)
  from c1 c2 c3 c4 c5 c6 c7 show ?thesis by (intro conjI)
qed

theorem guidance_tips_order_witness:
  "generateGuidance weak_governance_report =
     entropy_tips @ drift_tips @
     [''Define who approves token/component changes and add a simple intake form so requests follow one visible path.'']
   \<and> generateGuidance (report_of_scores [(''tooling'', scored 10)]) = [fallback_tip]
   \<and> distinct (generateGuidance weak_governance_report)"
proof -
  note t = guidance_tips_order [of weak_governance_report]
  have a: "generateGuidance weak_governance_report =
     entropy_tips @ drift_tips @
     [''Define who approves token/component changes and add a simple intake form so requests follow one visible path.'']"
    by code_simp
  have b: "generateGuidance (report_of_scores [(''tooling'', scored 10)]) = [fallback_tip]"
    by code_simp
  from t have c: "distinct (generateGuidance weak_governance_report)" by (elim conjE)
  from a b c show ?thesis by (intro conjI)
qed

section \<open>The numbers of the export payload\<close>

text \<open>
  Claim C9 says that every number of the payload is finite, the numbers of the copied
  context responses included, for any input maps. The context responses are copied as
  they are: a \<^verbatim>\<open>NaN\<close> or an infinity of the input map is in the payload.
\<close>

theorem export_copies_nan:
  "p_contextResponses
     (buildExportPayload nonfinite_context ''2026-01-01T00:00:00.000Z''
        (computeReportModel Map.empty nonfinite_context [])
        (generateGuidance (computeReportModel Map.empty nonfinite_context []))) ''teamSize'' = Some NaN
   \<and> p_contextResponses
     (buildExportPayload nonfinite_context ''2026-01-01T00:00:00.000Z''
        (computeReportModel Map.empty nonfinite_context [])
        (generateGuidance (computeReportModel Map.empty nonfinite_context []))) ''aiUsage'' = Some PInf
   \<and> \<not> isFinite NaN \<and> \<not> isFinite PInf
   \<and> \<not> export_numbers_finite
     (buildExportPayload nonfinite_context ''2026-01-01T00:00:00.000Z''
        (computeReportModel Map.empty nonfinite_context [])
        (generateGuidance (computeReportModel Map.empty nonfinite_context [])))"
proof -
  let ?p = "buildExportPayload nonfinite_context ''2026-01-01T00:00:00.000Z''
        (computeReportModel Map.empty nonfinite_context [])
        (generateGuidance (computeReportModel Map.empty nonfinite_context []))"
  have a: "p_contextResponses ?p ''teamSize'' = Some NaN"
    by (simp add: buildExportPayload_def nonfinite_context_def)
  then have "NaN \<in> ran (p_contextResponses ?p)" by (rule ranI)
  then have "\<not> (\<forall>v \<in> ran (p_contextResponses ?p). isFinite v)" by force
  then have c: "\<not> export_numbers_finite ?p" by (simp add: export_numbers_finite_def)
  have a': "p_contextResponses ?p ''aiUsage'' = Some PInf"
    by (simp add: buildExportPayload_def nonfinite_context_def)
  have b: "\<not> isFinite NaN" and b': "\<not> isFinite PInf" by simp_all
  from a a' b b' c show ?thesis by (intro conjI)
qed

text \<open>
  Claim C9, amended. For every pair of input maps, every list of questions and every
  guidance list, the computed numbers of the payload (\<^verbatim>\<open>SSI\<close>, \<^verbatim>\<open>OPI\<close>,
  \<^verbatim>\<open>adequacyGap\<close>, the \<^verbatim>\<open>avg\<close> and \<^verbatim>\<open>score100\<close> of every dimension) are finite. The
  context responses of the payload are the input map itself, so all the numbers of the
  payload are finite exactly when the values of that map are.
\<close>

theorem export_computed_numbers_finite:
  "isFinite (p_SSI (buildExportPayload cr now (computeReportModel rs cr qs) tips))
   \<and> isFinite (p_OPI (buildExportPayload cr now (computeReportModel rs cr qs) tips))
   \<and> isFinite (p_adequacyGap (buildExportPayload cr now (computeReportModel rs cr qs) tips))
   \<and> (\<forall>(d, e) \<in> set (p_dimensionScores (buildExportPayload cr now (computeReportModel rs cr qs) tips)).
         isFinite (e_avg e) \<and> isFinite (e_score100 e))
   \<and> map fst (p_dimensionScores (buildExportPayload cr now (computeReportModel rs cr qs) tips))
       = map fst (dimensionScores (computeReportModel rs cr qs))
   \<and> p_contextResponses (buildExportPayload cr now (computeReportModel rs cr qs) tips) = cr
   \<and> (export_numbers_finite (buildExportPayload cr now (computeReportModel rs cr qs) tips)
         \<longleftrightarrow> (\<forall>v \<in> ran cr. isFinite v))
   \<and> p_riskFlags (buildExportPayload cr now (computeReportModel rs cr qs) tips)
       = flags (risks (computeReportModel rs cr qs))
   \<and> p_guidanceTips (buildExportPayload cr now (computeReportModel rs cr qs) tips) = tips"
proof -
  let ?r = "computeReportModel rs cr qs"
  let ?p = "buildExportPayload cr now ?r tips"
  let ?ds = "computeDimensionScores rs qs"
  from report_numbers [of rs cr qs] obtain ssi opi where
    n: "SSI ?r = Some (Fin ssi)" "map_option op_OPI (operationalPressure ?r) = Some (Fin opi)"
       "adequacyGap ?r = Some (Fin (ssi - opi))" by blast
  have c1: "isFinite (p_SSI ?p)"
    unfolding buildExportPayload_def by (simp add: n isFinite_num_or_Fin)
  have c2: "isFinite (p_OPI ?p)"
    unfolding buildExportPayload_def by (simp add: n isFinite_num_or_Fin)
  have c3: "isFinite (p_adequacyGap ?p)"
    unfolding buildExportPayload_def by (simp add: n isFinite_num_or_Fin)
  have pd: "p_dimensionScores ?p =
      map (\<lambda>(d, s). (d, \<lparr>e_avg = num_or (Some (ds_avg s)) (Fin 0),
                          e_score100 = num_or (Some (ds_score100 s)) (Fin 0)\<rparr>)) ?ds"
    unfolding buildExportPayload_def
    by (simp add: report_dimensionScores obj_map_entries_distinct computeDimensionScores_distinct)
  have c4: "\<forall>(d, e) \<in> set (p_dimensionScores ?p). isFinite (e_avg e) \<and> isFinite (e_score100 e)"
  proof (clarify)
    fix d e assume "(d, e) \<in> set (p_dimensionScores ?p)"
    then obtain s where s: "(d, s) \<in> set ?ds"
      and e: "e = \<lparr>e_avg = num_or (Some (ds_avg s)) (Fin 0),
                    e_score100 = num_or (Some (ds_score100 s)) (Fin 0)\<rparr>"
      unfolding pd by auto
    from computeDimensionScores_ok [OF s] have ok: "score_ok s" .
    then have "ds_avg s = Fin (real_of (ds_avg s))"
      and "ds_score100 s = Fin (real_of (ds_avg s) / 3 * 100)"
      by (simp_all add: score_ok_def)
    then have "isFinite (ds_avg s)" and "isFinite (ds_score100 s)"
      by (metis isFinite.simps(1))+
    then show "isFinite (e_avg e) \<and> isFinite (e_score100 e)"
      by (simp add: e num_or_score_avg [OF ok])
  qed
  have c5: "map fst (p_dimensionScores ?p) = map fst (dimensionScores ?r)"
    unfolding pd report_dimensionScores by (simp add: comp_def case_prod_unfold)
  have c6: "p_contextResponses ?p = cr" by (simp add: buildExportPayload_def)
  have c7: "export_numbers_finite ?p \<longleftrightarrow> (\<forall>v \<in> ran cr. isFinite v)"
    using c1 c2 c3 c4 by (simp add: export_numbers_finite_def c6)
  have c8: "p_riskFlags ?p = flags (risks ?r)" by (simp add: buildExportPayload_def)
  have c9: "p_guidanceTips ?p = tips" by (simp add: buildExportPayload_def)
  from c1 c2 c3 c4 c5 c6 c7 c8 c9 show ?thesis by (intro conjI)
qed

theorem export_computed_numbers_finite_witness:
  "p_SSI (buildExportPayload ai_usage_four ''2026-01-01T00:00:00.000Z'' example_report (generateGuidance example_report)) = Fin 0
   \<and> p_OPI (buildExportPayload ai_usage_four ''2026-01-01T00:00:00.000Z'' example_report (generateGuidance example_report)) = Fin 20
   \<and> p_adequacyGap (buildExportPayload ai_usage_four ''2026-01-01T00:00:00.000Z'' example_report (generateGuidance example_report)) = Fin (- 20)
   \<and> p_dimensionScores (buildExportPayload ai_usage_four ''2026-01-01T00:00:00.000Z'' example_report (generateGuidance example_report))
       = [(''governance'', \<lparr>e_avg = Fin 0, e_score100 = Fin 0\<rparr>)]
   \<and> export_numbers_finite (buildExportPayload ai_usage_four ''2026-01-01T00:00:00.000Z'' example_report (generateGuidance example_report))"
proof -
  let ?p = "buildExportPayload ai_usage_four ''2026-01-01T00:00:00.000Z'' example_report (generateGuidance example_report)"
  note t = export_computed_numbers_finite [of ai_usage_four "''2026-01-01T00:00:00.000Z''"
      governance_zero governance_questions "generateGuidance example_report"]
  have a: "p_SSI ?p = Fin 0" by code_simp
  have b: "p_OPI ?p = Fin 20" by code_simp
  have c: "p_adequacyGap ?p = Fin (- 20)" by code_simp
  have d: "p_dimensionScores ?p = [(''governance'', \<lparr>e_avg = Fin 0, e_score100 = Fin 0\<rparr>)]" by code_simp
  have "\<forall>v \<in> ran ai_usage_four. isFinite v" by (simp add: ai_usage_four_def)
  with t have e: "export_numbers_finite ?p" by (simp add: example_report_def)
  from a b c d e show ?thesis by (intro conjI)
qed

section \<open>Scores are clamped, raw values are not\<close>

lemma unclamped_context_breakdown:
  "map (\<lambda>fe. (fst fe, b_raw (snd fe), b_score100 (snd fe), b_contribution (snd fe)))
       (op_breakdown (computeOperationalPressure unclamped_context)) =
     [(''teamSize'', NaN, Fin 0, Fin 0), (''productComplexity'', Fin 1, Fin 0, Fin 0),
      (''aiUsage'', Fin 9, Fin 100, Fin 20), (''releaseFrequency'', PInf, Fin 0, Fin 0),
      (''toolingFragmentation'', Fin (- 2), Fin 0, Fin 0)]"
  by (simp add: computeOperationalPressure_unfold OPERATIONAL_WEIGHTS_def aliases_of_def
      CONTEXT_KEY_ALIASES_def unclamped_context_def normalize1to4To100_Fin
      normalize1to4To100_nonfinite)

text \<open>
  Claim C10. For every context map, whatever its values: each factor's \<^verbatim>\<open>score100\<close> is
  the normalization of its raw value, a finite number in \<open>[0,100]\<close> (0 when the raw value
  is not finite), and its contribution is \<^verbatim>\<open>score100 * weight\<close>, in \<open>[0, weight*100]\<close>.
  The \<^verbatim>\<open>raw\<close> field is what \<^verbatim>\<open>resolveContextValue\<close> returns for the factor's aliases:
  the value of the first alias that is a key of the map, as it is, and 1 only when no alias
  is a key. So \<^verbatim>\<open>raw\<close> can be \<^verbatim>\<open>NaN\<close>, infinite or outside \<open>[1,4]\<close>, as in the example.
\<close>

theorem pressure_scores_clamped_raw_unclamped:
  "(\<forall>(f, e) \<in> set (op_breakdown (computeOperationalPressure cr)).
      \<exists>s w. b_raw e = resolveContextValue cr (aliases_of f)
        \<and> b_score100 e = normalize1to4To100 (b_raw e)
        \<and> b_score100 e = Fin s \<and> 0 \<le> s \<and> s \<le> 100
        \<and> map_of OPERATIONAL_WEIGHTS f = Some (Fin w) \<and> b_weight e = Fin w
        \<and> b_contribution e = Fin (s * w) \<and> 0 \<le> s * w \<and> s * w \<le> w * 100
        \<and> (\<not> isFinite (b_raw e) \<longrightarrow> s = 0))
   \<and> map fst (op_breakdown (computeOperationalPressure cr)) =
        [''teamSize'', ''productComplexity'', ''aiUsage'', ''releaseFrequency'', ''toolingFragmentation'']
   \<and> map aliases_of
        [''teamSize'', ''productComplexity'', ''aiUsage'', ''releaseFrequency'', ''toolingFragmentation''] =
        [[''teamSize'', ''oc_team_size''], [''productComplexity'', ''oc_product_complexity''],
         [''aiUsage'', ''oc_ai_usage''], [''releaseFrequency'', ''oc_release_frequency''],
         [''toolingFragmentation'', ''oc_tooling_fragmentation'']]
   \<and> resolveContextValue cr [key, legacy] =
        (case cr key of Some v \<Rightarrow> v
         | None \<Rightarrow> (case cr legacy of Some v \<Rightarrow> v | None \<Rightarrow> Fin 1))
   \<and> (\<exists>opi. op_OPI (computeOperationalPressure cr) = Fin opi \<and> 0 \<le> opi \<and> opi \<le> 100)
   \<and> map (\<lambda>fe. (fst fe, b_raw (snd fe), b_score100 (snd fe), b_contribution (snd fe)))
        (op_breakdown (computeOperationalPressure unclamped_context)) =
        [(''teamSize'', NaN, Fin 0, Fin 0), (''productComplexity'', Fin 1, Fin 0, Fin 0),
         (''aiUsage'', Fin 9, Fin 100, Fin 20), (''releaseFrequency'', PInf, Fin 0, Fin 0),
         (''toolingFragmentation'', Fin (- 2), Fin 0, Fin 0)]"
proof -
  have entries: "\<forall>(f, e) \<in> set (op_breakdown (computeOperationalPressure cr)).
      \<exists>s w. b_raw e = resolveContextValue cr (aliases_of f)
        \<and> b_score100 e = normalize1to4To100 (b_raw e)
        \<and> b_score100 e = Fin s \<and> 0 \<le> s \<and> s \<le> 100
        \<and> map_of OPERATIONAL_WEIGHTS f = Some (Fin w) \<and> b_weight e = Fin w
        \<and> b_contribution e = Fin (s * w) \<and> 0 \<le> s * w \<and> s * w \<le> w * 100
        \<and> (\<not> isFinite (b_raw e) \<longrightarrow> s = 0)"
  proof (clarify)
    fix f e
    assume fe: "(f, e) \<in> set (op_breakdown (computeOperationalPressure cr))"
    from breakdown_entry [OF fe] obtain w where w: "map_of OPERATIONAL_WEIGHTS f = Some (Fin w)"
      "0 \<le> w" "w \<le> 1"
      "b_raw e = resolveContextValue cr (aliases_of f)"
      "b_score100 e = Fin (score14 (b_raw e))" "b_weight e = Fin w"
      "b_contribution e = Fin (score14 (b_raw e) * w)" by blast
    let ?s = "score14 (b_raw e)"
    have s: "0 \<le> ?s" "?s \<le> 100" using score14_bounds [of "b_raw e"] by simp_all
    have lo: "0 \<le> ?s * w" using s(1) w(2) by simp
    have hi: "?s * w \<le> w * 100" using s(2) w(2) by (simp add: mult.commute mult_left_mono)
    have nf: "\<not> isFinite (b_raw e) \<longrightarrow> ?s = 0" by (simp add: score14_nonfinite)
    have n: "b_score100 e = normalize1to4To100 (b_raw e)"
      using w(5) by (simp add: normalize1to4To100_eq)
    from w s lo hi nf n
    show "\<exists>s w. b_raw e = resolveContextValue cr (aliases_of f)
        \<and> b_score100 e = normalize1to4To100 (b_raw e)
        \<and> b_score100 e = Fin s \<and> 0 \<le> s \<and> s \<le> 100
        \<and> map_of OPERATIONAL_WEIGHTS f = Some (Fin w) \<and> b_weight e = Fin w
        \<and> b_contribution e = Fin (s * w) \<and> 0 \<le> s * w \<and> s * w \<le> w * 100
        \<and> (\<not> isFinite (b_raw e) \<longrightarrow> s = 0)"
      by (intro exI [of _ ?s] exI [of _ w]) blast
  qed
  have keys: "map fst (op_breakdown (computeOperationalPressure cr)) =
        [''teamSize'', ''productComplexity'', ''aiUsage'', ''releaseFrequency'', ''toolingFragmentation'']"
    by (simp add: computeOperationalPressure_unfold OPERATIONAL_WEIGHTS_def)
  have al: "map aliases_of
        [''teamSize'', ''productComplexity'', ''aiUsage'', ''releaseFrequency'', ''toolingFragmentation''] =
        [[''teamSize'', ''oc_team_size''], [''productComplexity'', ''oc_product_complexity''],
         [''aiUsage'', ''oc_ai_usage''], [''releaseFrequency'', ''oc_release_frequency''],
         [''toolingFragmentation'', ''oc_tooling_fragmentation'']]"
    by (simp add: aliases_of_def CONTEXT_KEY_ALIASES_def)
  have res: "resolveContextValue cr [key, legacy] =
        (case cr key of Some v \<Rightarrow> v
         | None \<Rightarrow> (case cr legacy of Some v \<Rightarrow> v | None \<Rightarrow> Fin 1))"
    by (simp split: option.split)
  from entries keys al res OPI_range [of cr] unclamped_context_breakdown
  show ?thesis by (intro conjI)
qed

theorem pressure_scores_clamped_raw_unclamped_witness:
  "map_of (op_breakdown (computeOperationalPressure unclamped_context)) ''teamSize'' =
     Some \<lparr>b_raw = NaN, b_score100 = Fin 0, b_weight = Fin (25 / 100), b_contribution = Fin 0\<rparr>
   \<and> map_of (op_breakdown (computeOperationalPressure unclamped_context)) ''toolingFragmentation'' =
     Some \<lparr>b_raw = Fin (- 2), b_score100 = Fin 0, b_weight = Fin (15 / 100), b_contribution = Fin 0\<rparr>
   \<and> op_OPI (computeOperationalPressure unclamped_context) = Fin 20
   \<and> map fst (op_breakdown (computeOperationalPressure unclamped_context)) =
        [''teamSize'', ''productComplexity'', ''aiUsage'', ''releaseFrequency'', ''toolingFragmentation'']"
proof -
  note t = pressure_scores_clamped_raw_unclamped [of unclamped_context "''teamSize''" "''oc_team_size''"]
  have a: "map_of (op_breakdown (computeOperationalPressure unclamped_context)) ''teamSize'' =
     Some \<lparr>b_raw = NaN, b_score100 = Fin 0, b_weight = Fin (25 / 100), b_contribution = Fin 0\<rparr>"
    by (simp add: computeOperationalPressure_unfold OPERATIONAL_WEIGHTS_def aliases_of_def
      CONTEXT_KEY_ALIASES_def unclamped_context_def normalize1to4To100_nonfinite)
  have b: "map_of (op_breakdown (computeOperationalPressure unclamped_context)) ''toolingFragmentation'' =
     Some \<lparr>b_raw = Fin (- 2), b_score100 = Fin 0, b_weight = Fin (15 / 100), b_contribution = Fin 0\<rparr>"
    by (simp add: computeOperationalPressure_unfold OPERATIONAL_WEIGHTS_def aliases_of_def
      CONTEXT_KEY_ALIASES_def unclamped_context_def normalize1to4To100_Fin)
  have c: "op_OPI (computeOperationalPressure unclamped_context) = Fin 20"
    by (simp add: OPI_real aliases_of_def CONTEXT_KEY_ALIASES_def unclamped_context_def score14_def)
  from t have d: "map fst (op_breakdown (computeOperationalPressure unclamped_context)) =
        [''teamSize'', ''productComplexity'', ''aiUsage'', ''releaseFrequency'', ''toolingFragmentation'']"
    by (elim conjE)
  from a b c d show ?thesis by (intro conjI)
qed

end

